theory Spec2Isabelle
  imports Complex_Main
begin

section \<open>Values of the host language\<close>

text \<open>
  The module under verification is \<^verbatim>\<open>src/index.ts\<close>: \<^verbatim>\<open>formatDate\<close>, \<^verbatim>\<open>convertDate\<close> and
  \<^verbatim>\<open>getSmartDate\<close>. It is written against the built-in \<^verbatim>\<open>Date\<close> object and three functions
  of the date-fns library (\<^verbatim>\<open>isValid\<close>, \<^verbatim>\<open>format\<close>, \<^verbatim>\<open>formatDistance\<close>).

  A number is modelled on the integer-valued doubles together with \<^verbatim>\<open>NaN\<close> and the two
  infinities: these are the timestamps the module is written for. Fractional doubles are
  outside the model. On the modelled values every arithmetic step below is exact in double
  precision wherever its result can still become a valid time value.
\<close>

datatype jsnumber = NaN | PosInfinity | NegInfinity | Finite int

fun greaterThan :: "jsnumber \<Rightarrow> int \<Rightarrow> bool" where
  "greaterThan (Finite n) k = (k < n)"
| "greaterThan PosInfinity k = True"
| "greaterThan NegInfinity k = False"
| "greaterThan NaN k = False"

text \<open>Multiplication and subtraction by a positive integer constant, and
  \<^verbatim>\<open>Math.floor(x / k)\<close> for a positive integer \<open>k\<close>: \<^verbatim>\<open>NaN\<close> and the infinities are unchanged.\<close>

fun mul :: "jsnumber \<Rightarrow> int \<Rightarrow> jsnumber" where
  "mul (Finite n) k = Finite (n * k)"
| "mul x k = x"

fun sub :: "jsnumber \<Rightarrow> int \<Rightarrow> jsnumber" where
  "sub (Finite n) k = Finite (n - k)"
| "sub x k = x"

fun floorDiv :: "jsnumber \<Rightarrow> int \<Rightarrow> jsnumber" where
  "floorDiv (Finite n) k = Finite (n div k)"
| "floorDiv x k = x"

text \<open>A thrown value, and the text the catch clause of \<^verbatim>\<open>formatDate\<close> extracts from it:
  \<^verbatim>\<open>error instanceof Error ? error.message : String(error)\<close>.\<close>

datatype thrown = ErrorInstance string | NonError string

fun thrownText :: "thrown \<Rightarrow> string" where
  "thrownText (ErrorInstance message) = message"
| "thrownText (NonError shown) = shown"

text \<open>A \<^verbatim>\<open>Date\<close> object holds a time value: milliseconds since the epoch, or \<^verbatim>\<open>NaN\<close>
  (\<open>None\<close>) for an invalid date. The module never mutates a \<^verbatim>\<open>Date\<close>.\<close>

datatype Date = Date (timeValue: "int option")

typedecl Locale

section \<open>Time values (ECMA-262, Date objects)\<close>

definition msPerDay :: int where
  "msPerDay = 86400000"

definition Day :: "int \<Rightarrow> int" where
  "Day t = t div msPerDay"

definition TimeWithinDay :: "int \<Rightarrow> int" where
  "TimeWithinDay t = t mod msPerDay"

definition DaysInYear :: "int \<Rightarrow> int" where
  "DaysInYear y =
     (if y mod 4 \<noteq> 0 then 365
      else if y mod 100 \<noteq> 0 then 366
      else if y mod 400 \<noteq> 0 then 365
      else 366)"

definition DayFromYear :: "int \<Rightarrow> int" where
  "DayFromYear y =
     365 * (y - 1970) + (y - 1969) div 4 - (y - 1901) div 100 + (y - 1601) div 400"

text \<open>The year of a day number: the largest \<open>y\<close> with \<open>DayFromYear y \<le> d\<close>, computed from
  an estimate that is off by at most one year (lemmas \<open>YearFromDay_unique\<close> and
  \<open>YearFromDay_correct\<close> below).\<close>

definition YearFromDay :: "int \<Rightarrow> int" where
  "YearFromDay d =
     (let y = 1970 + (400 * d) div 146097
      in if d < DayFromYear y then y - 1
         else if DayFromYear (y + 1) \<le> d then y + 1
         else y)"

definition YearFromTime :: "int \<Rightarrow> int" where
  "YearFromTime t = YearFromDay (Day t)"

definition InLeapYear :: "int \<Rightarrow> int" where
  "InLeapYear t = (if DaysInYear (YearFromTime t) = 366 then 1 else 0)"

definition DayWithinYear :: "int \<Rightarrow> int" where
  "DayWithinYear t = Day t - DayFromYear (YearFromTime t)"

definition MonthFromTime :: "int \<Rightarrow> int" where
  "MonthFromTime t =
     (let d = DayWithinYear t; l = InLeapYear t
      in if d < 31 then 0
         else if d < 59 + l then 1
         else if d < 90 + l then 2
         else if d < 120 + l then 3
         else if d < 151 + l then 4
         else if d < 181 + l then 5
         else if d < 212 + l then 6
         else if d < 243 + l then 7
         else if d < 273 + l then 8
         else if d < 304 + l then 9
         else if d < 334 + l then 10
         else 11)"

definition DateFromTime :: "int \<Rightarrow> int" where
  "DateFromTime t =
     (let d = DayWithinYear t; l = InLeapYear t; m = MonthFromTime t
      in if m = 0 then d + 1
         else if m = 1 then d - 30
         else if m = 2 then d - 58 - l
         else if m = 3 then d - 89 - l
         else if m = 4 then d - 119 - l
         else if m = 5 then d - 150 - l
         else if m = 6 then d - 180 - l
         else if m = 7 then d - 211 - l
         else if m = 8 then d - 242 - l
         else if m = 9 then d - 272 - l
         else if m = 10 then d - 303 - l
         else d - 333 - l)"

definition HourFromTime :: "int \<Rightarrow> int" where
  "HourFromTime t = (t div 3600000) mod 24"

definition MinFromTime :: "int \<Rightarrow> int" where
  "MinFromTime t = (t div 60000) mod 60"

definition SecFromTime :: "int \<Rightarrow> int" where
  "SecFromTime t = (t div 1000) mod 60"

definition msFromTime :: "int \<Rightarrow> int" where
  "msFromTime t = t mod 1000"

definition MakeTime :: "int \<Rightarrow> int \<Rightarrow> int \<Rightarrow> int \<Rightarrow> int" where
  "MakeTime hour minute sec ms = hour * 3600000 + minute * 60000 + sec * 1000 + ms"

text \<open>The day number, within its year, on which month \<open>mn\<close> (0 to 11) begins.\<close>

definition monthStart :: "int \<Rightarrow> int \<Rightarrow> int" where
  "monthStart mn leap =
     (if mn = 0 then 0
      else if mn = 1 then 31
      else if mn = 2 then 59 + leap
      else if mn = 3 then 90 + leap
      else if mn = 4 then 120 + leap
      else if mn = 5 then 151 + leap
      else if mn = 6 then 181 + leap
      else if mn = 7 then 212 + leap
      else if mn = 8 then 243 + leap
      else if mn = 9 then 273 + leap
      else if mn = 10 then 304 + leap
      else 334 + leap)"

text \<open>\<^verbatim>\<open>MakeDay\<close>: months outside 0 to 11 carry into the year, days outside the month carry
  into the neighbouring months.\<close>

definition MakeDay :: "int \<Rightarrow> int \<Rightarrow> int \<Rightarrow> int" where
  "MakeDay year month date =
     (let ym = year + month div 12;
          mn = month mod 12
      in DayFromYear ym + monthStart mn (if DaysInYear ym = 366 then 1 else 0) + date - 1)"

definition MakeDate :: "int \<Rightarrow> int \<Rightarrow> int" where
  "MakeDate day time = day * msPerDay + time"

definition TimeClip :: "int \<Rightarrow> int option" where
  "TimeClip t = (if 8640000000000000 < \<bar>t\<bar> then None else Some t)"

definition DaysInMonth :: "int \<Rightarrow> int \<Rightarrow> int" where
  "DaysInMonth y m =
     (if m = 2 then (if DaysInYear y = 366 then 29 else 28)
      else if m = 4 \<or> m = 6 \<or> m = 9 \<or> m = 11 then 30
      else 31)"

section \<open>Decimal digits\<close>

definition isDigit :: "char \<Rightarrow> bool" where
  "isDigit c = (c \<in> set ''0123456789'')"

definition digitValue :: "char \<Rightarrow> nat" where
  "digitValue c = of_char c - 48"

definition digitChar :: "nat \<Rightarrow> char" where
  "digitChar n = ''0123456789'' ! n"

definition decimal :: "string \<Rightarrow> nat" where
  "decimal ds = foldl (\<lambda>n c. 10 * n + digitValue c) 0 ds"

fun digitsOf :: "nat \<Rightarrow> string" where
  "digitsOf n = (if n < 10 then [digitChar n] else digitsOf (n div 10) @ [digitChar (n mod 10)])"

declare digitsOf.simps [simp del]

text \<open>\<^verbatim>\<open>String(n).padStart(width, "0")\<close> for a natural number.\<close>

definition padStart :: "nat \<Rightarrow> nat \<Rightarrow> string" where
  "padStart width n = replicate (width - length (digitsOf n)) (CHR ''0'') @ digitsOf n"


section \<open>The host: clock, time zone, and the collaborators\<close>

text \<open>
  What the module reads from its surroundings is collected in a record, and every theorem
  below holds for every such host:
  \<^item> \<open>clock\<close>: the successive readings of the system clock; \<open>clock h 0\<close> is what the next
    \<^verbatim>\<open>new Date()\<close> returns;
  \<^item> \<open>LocalTZA\<close>: the offset of local time, in milliseconds, as in ECMA-262
    (\<open>LocalTZA t True\<close> for a UTC time value \<open>t\<close>, \<open>LocalTZA t False\<close> for a local one);
  \<^item> \<open>parseFallback\<close>: what \<^verbatim>\<open>Date.parse\<close> returns on a string outside the two forms of the
    standard date-time string format modelled below (implementation-defined for the most part);
  \<^item> \<open>format\<close> and \<open>formatDistance\<close>: the two date-fns functions, which either return a
    string or throw. \<open>formatDistance\<close> takes the \<^verbatim>\<open>addSuffix\<close> flag as its third argument.
\<close>

record host =
  clock :: "nat \<Rightarrow> int"
  LocalTZA :: "int \<Rightarrow> bool \<Rightarrow> int"
  parseFallback :: "string \<Rightarrow> int option"
  format :: "Date \<Rightarrow> string \<Rightarrow> Locale option \<Rightarrow> thrown + string"
  formatDistance :: "Date \<Rightarrow> Date \<Rightarrow> bool \<Rightarrow> thrown + string"

definition LocalTime :: "host \<Rightarrow> int \<Rightarrow> int" where
  "LocalTime h t = t + LocalTZA h t True"

definition UTC :: "host \<Rightarrow> int \<Rightarrow> int" where
  "UTC h t = t - LocalTZA h t False"

subsection \<open>Date objects\<close>

text \<open>\<^verbatim>\<open>isValid\<close> of date-fns on a \<^verbatim>\<open>Date\<close>: its time value is not \<^verbatim>\<open>NaN\<close>.\<close>

definition isValid :: "Date \<Rightarrow> bool" where
  "isValid d = (case timeValue d of None \<Rightarrow> False | Some t \<Rightarrow> True)"

definition getTime :: "Date \<Rightarrow> jsnumber" where
  "getTime d = (case timeValue d of None \<Rightarrow> NaN | Some t \<Rightarrow> Finite t)"

definition getFullYear :: "host \<Rightarrow> Date \<Rightarrow> jsnumber" where
  "getFullYear h d =
     (case timeValue d of None \<Rightarrow> NaN | Some t \<Rightarrow> Finite (YearFromTime (LocalTime h t)))"

text \<open>\<^verbatim>\<open>a === b\<close> on numbers: \<^verbatim>\<open>NaN\<close> equals nothing.\<close>

definition strictEquals :: "jsnumber \<Rightarrow> jsnumber \<Rightarrow> bool" where
  "strictEquals a b = (case a of NaN \<Rightarrow> False | _ \<Rightarrow> a = b)"

text \<open>\<^verbatim>\<open>new Date()\<close>.\<close>

definition newDate_now :: "host \<Rightarrow> Date" where
  "newDate_now h = Date (Some (clock h 0))"

text \<open>\<^verbatim>\<open>new Date(value)\<close> for a number.\<close>

definition newDate_number :: "jsnumber \<Rightarrow> Date" where
  "newDate_number v = (case v of Finite t \<Rightarrow> Date (TimeClip t) | _ \<Rightarrow> Date None)"

text \<open>\<^verbatim>\<open>new Date(year, monthIndex, day)\<close>: local time, with the constructor's rule that a
  year from 0 to 99 means 1900 to 1999.\<close>

definition newDate_ymd :: "host \<Rightarrow> jsnumber \<Rightarrow> jsnumber \<Rightarrow> jsnumber \<Rightarrow> Date" where
  "newDate_ymd h year month day =
     (case year of
        Finite y \<Rightarrow>
          (case month of
             Finite m \<Rightarrow>
               (case day of
                  Finite dt \<Rightarrow>
                    (let yr = (if 0 \<le> y \<and> y \<le> 99 then 1900 + y else y);
                         finalDate = MakeDate (MakeDay yr m dt) (MakeTime 0 0 0 0)
                     in Date (TimeClip (UTC h finalDate)))
                | _ \<Rightarrow> Date None)
           | _ \<Rightarrow> Date None)
      | _ \<Rightarrow> Date None)"

subsection \<open>Strings\<close>

text \<open>The regular expression \<^verbatim>\<open>/^\d{4}-\d{2}-\d{2}$/\<close>.\<close>

definition matchesYMD :: "string \<Rightarrow> bool" where
  "matchesYMD s =
     (length s = 10 \<and> list_all isDigit (take 4 s) \<and> s ! 4 = CHR ''-'' \<and>
      list_all isDigit (take 2 (drop 5 s)) \<and> s ! 7 = CHR ''-'' \<and>
      list_all isDigit (drop 8 s))"

text \<open>The form \<^verbatim>\<open>YYYY-MM-DDTHH:mm:ss.sssZ\<close> of the standard date-time string format.\<close>

definition matchesDateTimeUTC :: "string \<Rightarrow> bool" where
  "matchesDateTimeUTC s =
     (length s = 24 \<and> matchesYMD (take 10 s) \<and> s ! 10 = CHR ''T'' \<and>
      list_all isDigit (take 2 (drop 11 s)) \<and> s ! 13 = CHR '':'' \<and>
      list_all isDigit (take 2 (drop 14 s)) \<and> s ! 16 = CHR '':'' \<and>
      list_all isDigit (take 2 (drop 17 s)) \<and> s ! 19 = CHR ''.'' \<and>
      list_all isDigit (take 3 (drop 20 s)) \<and> s ! 23 = CHR ''Z'')"

definition field :: "string \<Rightarrow> nat \<Rightarrow> nat \<Rightarrow> int" where
  "field s i n = int (decimal (take n (drop i s)))"

text \<open>
  \<^verbatim>\<open>Date.parse\<close>. A string in the date-only form is a UTC midnight, one in the full form with
  \<^verbatim>\<open>Z\<close> a UTC instant; hour 24 is allowed for the end of a day. An element out of bounds makes
  the result \<^verbatim>\<open>NaN\<close>. A day from 29 to 31 that its month does not have is accepted by some
  engines and rejected by others, so it is left to \<open>parseFallback\<close>, as is every other string.
\<close>

definition Date_parse :: "host \<Rightarrow> string \<Rightarrow> int option" where
  "Date_parse h s =
     (if matchesYMD s then
        (let y = field s 0 4; m = field s 5 2; d = field s 8 2
         in if m < 1 \<or> 12 < m \<or> d < 1 \<or> 31 < d then None
            else if d \<le> DaysInMonth y m
              then TimeClip (MakeDate (MakeDay y (m - 1) d) (MakeTime 0 0 0 0))
            else parseFallback h s)
      else if matchesDateTimeUTC s then
        (let y = field s 0 4; m = field s 5 2; d = field s 8 2;
             hh = field s 11 2; mi = field s 14 2; ss = field s 17 2; ms = field s 20 3
         in if m < 1 \<or> 12 < m \<or> d < 1 \<or> 31 < d \<or> 24 < hh \<or> 59 < mi \<or> 59 < ss \<or>
               (hh = 24 \<and> (0 < mi \<or> 0 < ss \<or> 0 < ms)) then None
            else if d \<le> DaysInMonth y m
              then TimeClip (MakeDate (MakeDay y (m - 1) d) (MakeTime hh mi ss ms))
            else parseFallback h s)
      else parseFallback h s)"

text \<open>\<^verbatim>\<open>new Date(text)\<close>.\<close>

definition newDate_string :: "host \<Rightarrow> string \<Rightarrow> Date" where
  "newDate_string h s = Date (Date_parse h s)"

text \<open>\<^verbatim>\<open>toISOString\<close>: UTC fields; the year has four digits from 0 to 9999 and a sign and six
  digits otherwise. It throws a \<^verbatim>\<open>RangeError\<close> on an invalid date.\<close>

definition isoYear :: "int \<Rightarrow> string" where
  "isoYear y =
     (if 0 \<le> y \<and> y \<le> 9999 then padStart 4 (nat y)
      else (if y < 0 then ''-'' else ''+'') @ padStart 6 (nat \<bar>y\<bar>))"

definition toISOString :: "Date \<Rightarrow> thrown + string" where
  "toISOString d =
     (case timeValue d of
        None \<Rightarrow> Inl (ErrorInstance ''Invalid time value'')
      | Some t \<Rightarrow>
          Inr (isoYear (YearFromTime t) @ ''-'' @ padStart 2 (nat (MonthFromTime t + 1)) @ ''-'' @
               padStart 2 (nat (DateFromTime t)) @ ''T'' @ padStart 2 (nat (HourFromTime t)) @ '':'' @
               padStart 2 (nat (MinFromTime t)) @ '':'' @ padStart 2 (nat (SecFromTime t)) @ ''.'' @
               padStart 3 (nat (msFromTime t)) @ ''Z''))"

text \<open>\<^verbatim>\<open>text.split(sep)\<close> for a separator of one character.\<close>

fun split :: "char \<Rightarrow> string \<Rightarrow> string list" where
  "split sep [] = [[]]"
| "split sep (c # cs) =
     (if c = sep then [] # split sep cs
      else (case split sep cs of [] \<Rightarrow> [[c]] | w # ws \<Rightarrow> (c # w) # ws))"

text \<open>\<^verbatim>\<open>Number(text)\<close> on the strings the regular expression lets through: a run of decimal
  digits. Other numeric literals (signs, exponents, hexadecimal, white space) are not modelled;
  no such string reaches this function.\<close>

definition Number :: "string \<Rightarrow> jsnumber" where
  "Number s = (if list_all isDigit s then Finite (int (decimal s)) else NaN)"


section \<open>The module\<close>

subsection \<open>Types of \<^verbatim>\<open>index.ts\<close>\<close>

text \<open>\<^verbatim>\<open>DateInput\<close> is \<^verbatim>\<open>Date | number | string\<close>; the code also has a branch for a value of
  any other kind, which an untyped caller can pass.\<close>

datatype DateInput = InDate Date | InNumber jsnumber | InString string | InOther

text \<open>\<^verbatim>\<open>DateOutputFormat\<close> is a union of twelve string literals. The switch over it has a
  default branch for any other string, so the format is modelled as the string it is at run
  time.\<close>

type_synonym DateOutputFormat = string

datatype TimestampUnit = seconds | milliseconds

record DateUtilOptions =
  "locale" :: "Locale option"
  timestampUnit :: "TimestampUnit option"
  customFormat :: "string option"

datatype rendered = Str string | Num jsnumber

record DateResult =
  success :: bool
  "value" :: "rendered option"
  error :: "string option"
  date :: "Date option"

text \<open>What \<^verbatim>\<open>convertDate\<close> and \<^verbatim>\<open>getSmartDate\<close> return: \<^verbatim>\<open>string | number | null\<close>, and
  \<^verbatim>\<open>undefined\<close> where a field that is read is absent.\<close>

datatype returned = Rendered rendered | Null | Undefined

subsection \<open>\<^verbatim>\<open>formatDate\<close>\<close>

definition successful :: "rendered \<Rightarrow> Date \<Rightarrow> DateResult" where
  "successful v d = \<lparr>success = True, value = Some v, error = None, date = Some d\<rparr>"

definition failure :: "string \<Rightarrow> DateResult" where
  "failure message = \<lparr>success = False, value = None, error = Some message, date = None\<rparr>"

text \<open>A case of the switch that assigns a string to \<^verbatim>\<open>value\<close>: the collaborator's exception
  propagates, its result reaches the final \<^verbatim>\<open>return\<close>.\<close>

definition assignString :: "thrown + string \<Rightarrow> Date \<Rightarrow> thrown + DateResult" where
  "assignString r d = (case r of Inl e \<Rightarrow> Inl e | Inr v \<Rightarrow> Inr (successful (Str v) d))"

text \<open>Lines 76 to 103: the input becomes a \<^verbatim>\<open>Date\<close>, or the function returns
  \<^verbatim>\<open>Unsupported input format.\<close> (\<open>None\<close>). Destructuring an array of fewer than three
  elements leaves \<^verbatim>\<open>undefined\<close>, which the constructor turns into an invalid date.\<close>

definition formatDate_parse :: "host \<Rightarrow> DateInput \<Rightarrow> TimestampUnit \<Rightarrow> Date option" where
  "formatDate_parse h input unit =
     (case input of
        InDate d \<Rightarrow> Some d
      | InNumber n \<Rightarrow>
          (let isMilliseconds = (greaterThan n 10000000000 \<or> unit = milliseconds)
           in Some (newDate_number (if isMilliseconds then n else mul n 1000)))
      | InString s \<Rightarrow>
          (let date' = newDate_string h s
           in if \<not> isValid date' \<and> matchesYMD s then
                (case map Number (split (CHR ''-'') s) of
                   year # month # day # rest \<Rightarrow> Some (newDate_ymd h year (sub month 1) day)
                 | _ \<Rightarrow> Some (Date None))
              else Some date')
      | InOther \<Rightarrow> None)"

text \<open>\<^verbatim>\<open>const { timestampUnit = "seconds" } = options\<close>.\<close>

definition unitOf :: "DateUtilOptions \<Rightarrow> TimestampUnit" where
  "unitOf options = (case timestampUnit options of None \<Rightarrow> seconds | Some u \<Rightarrow> u)"

text \<open>The body of the \<^verbatim>\<open>try\<close> block: \<open>Inl\<close> is an exception that leaves it.\<close>

definition formatDate_try ::
  "host \<Rightarrow> DateInput \<Rightarrow> DateOutputFormat \<Rightarrow> DateUtilOptions \<Rightarrow> thrown + DateResult" where
  "formatDate_try h input outputFormat options =
     (let unit = unitOf options
      in case formatDate_parse h input unit of
           None \<Rightarrow> Inr (failure ''Unsupported input format.'')
         | Some date' \<Rightarrow>
             if \<not> isValid date' then Inr (failure ''Invalid date.'')
             else
               (let now = newDate_now h
                in if outputFormat = ''ISO'' then assignString (toISOString date') date'
                   else if outputFormat = ''YYYY-MM-DD'' then
                     assignString (format h date' ''yyyy-MM-dd'' None) date'
                   else if outputFormat = ''YYYY-MM-DD HH:MM'' then
                     assignString (format h date' ''yyyy-MM-dd HH:mm'' None) date'
                   else if outputFormat = ''MMM D, YYYY'' then
                     assignString (format h date' ''MMM d, yyyy'' None) date'
                   else if outputFormat = ''MMMM D, YYYY'' then
                     assignString (format h date' ''MMMM d, yyyy'' None) date'
                   else if outputFormat = ''MMM D, HH:mm'' then
                     assignString (format h date' ''MMM d, HH:mm'' None) date'
                   else if outputFormat = ''MMM D YYYY, HH:mm'' then
                     assignString (format h date' ''MMM d, yyyy, HH:mm'' None) date'
                   else if outputFormat = ''timestamp-seconds'' then
                     Inr (successful (Num (floorDiv (getTime date') 1000)) date')
                   else if outputFormat = ''timestamp-ms'' then
                     Inr (successful (Num (getTime date')) date')
                   else if outputFormat = ''relative'' then
                     assignString (formatDistance h date' now True) date'
                   else if outputFormat = ''month-day'' then
                     assignString (format h date' ''MMM d'' None) date'
                   else if outputFormat = ''custom'' then
                     (case customFormat options of
                        None \<Rightarrow>
                          Inr (failure ''Custom format requires 'customFormat' option to be provided'')
                      | Some cf \<Rightarrow>
                          if cf = [] then
                            Inr (failure ''Custom format requires 'customFormat' option to be provided'')
                          else
                            (case format h date' cf (locale options) of
                               Inl e \<Rightarrow> Inr (failure (''Invalid custom format: '' @ cf))
                             | Inr v \<Rightarrow> Inr (successful (Str v) date')))
                   else Inr (failure (''Unsupported output format: '' @ outputFormat))))"

definition formatDate ::
  "host \<Rightarrow> DateInput \<Rightarrow> DateOutputFormat \<Rightarrow> DateUtilOptions \<Rightarrow> DateResult" where
  "formatDate h input outputFormat options =
     (case formatDate_try h input outputFormat options of
        Inl e \<Rightarrow> failure (''Date parsing error: '' @ thrownText e)
      | Inr result \<Rightarrow> result)"

subsection \<open>\<^verbatim>\<open>convertDate\<close>\<close>

definition convertDate ::
  "host \<Rightarrow> DateInput \<Rightarrow> DateOutputFormat \<Rightarrow> DateUtilOptions \<Rightarrow> returned" where
  "convertDate h input outputFormat options =
     (let result = formatDate h input outputFormat options
      in if success result
         then (case value result of Some v \<Rightarrow> Rendered v | None \<Rightarrow> Undefined)
         else Null)"

subsection \<open>\<^verbatim>\<open>getSmartDate\<close>\<close>

text \<open>Lines 237 to 248; \<open>None\<close> is the early \<^verbatim>\<open>return null\<close>.\<close>

definition getSmartDate_parse :: "host \<Rightarrow> DateInput \<Rightarrow> TimestampUnit \<Rightarrow> Date option" where
  "getSmartDate_parse h input unit =
     (case input of
        InDate d \<Rightarrow> Some d
      | InNumber n \<Rightarrow>
          (let isMilliseconds = (greaterThan n 10000000000 \<or> unit = milliseconds)
           in Some (newDate_number (if isMilliseconds then n else mul n 1000)))
      | InString s \<Rightarrow> Some (newDate_string h s)
      | InOther \<Rightarrow> None)"

text \<open>\<^verbatim>\<open>(now.getTime() - date.getTime()) / (1000 * 60 * 60)\<close>, \<open>None\<close> for \<^verbatim>\<open>NaN\<close>, and the test
  \<^verbatim>\<open>diffInHours <= 24\<close>. The quotient is kept exact: rounding it to a double does not change
  the outcome of the comparison, since 24 is a double and a difference of 86400001
  milliseconds or more gives a quotient that is above 24 by more than the spacing of
  doubles there.\<close>

definition hoursBetween :: "Date \<Rightarrow> Date \<Rightarrow> rat option" where
  "hoursBetween now d =
     (case timeValue now of
        None \<Rightarrow> None
      | Some n \<Rightarrow>
          (case timeValue d of
             None \<Rightarrow> None
           | Some t \<Rightarrow> Some (of_int (n - t) / of_int (1000 * 60 * 60))))"

definition atMost :: "rat option \<Rightarrow> rat \<Rightarrow> bool" where
  "atMost x k = (case x of None \<Rightarrow> False | Some q \<Rightarrow> q \<le> k)"

text \<open>The clock as the call to \<^verbatim>\<open>convertDate\<close> finds it, after \<^verbatim>\<open>getSmartDate\<close> has read it
  once.\<close>

definition afterReading :: "host \<Rightarrow> host" where
  "afterReading h = h\<lparr>clock := (\<lambda>k. clock h (Suc k))\<rparr>"

text \<open>Nothing inside the \<^verbatim>\<open>try\<close> block of \<^verbatim>\<open>getSmartDate\<close> throws: the constructors and getters
  do not, and \<^verbatim>\<open>convertDate\<close> returns whatever happens, \<^verbatim>\<open>formatDate\<close> having a catch
  clause of its own. So the catch clause with its \<^verbatim>\<open>console.error\<close> is not reached and the
  model has no branch for it.\<close>

definition getSmartDate :: "host \<Rightarrow> DateInput \<Rightarrow> DateUtilOptions \<Rightarrow> returned" where
  "getSmartDate h input options =
     (let unit = unitOf options
      in case getSmartDate_parse h input unit of
           None \<Rightarrow> Null
         | Some date' \<Rightarrow>
             if \<not> isValid date' then Null
             else
               (let now = newDate_now h;
                    diffInHours = hoursBetween now date';
                    currentYear = getFullYear h now;
                    dateYear = getFullYear h date';
                    timeFormat =
                      (if atMost diffInHours 24 then ''relative''
                       else if strictEquals currentYear dateYear then ''MMM D, HH:mm''
                       else ''MMM D YYYY, HH:mm'')
                in convertDate (afterReading h) (InDate date') timeFormat options))"


section \<open>A concrete host\<close>

text \<open>
  Closed examples need a host in which everything is fixed. The two date-fns functions are
  modelled as far as the examples go, for the default locale and a zone with a fixed offset;
  what lies beyond is passed to a parameter.

  \<^verbatim>\<open>format\<close> cuts the pattern into runs of one character. Of these the model renders
  \<^verbatim>\<open>yyyy\<close>, \<^verbatim>\<open>MM\<close>, \<^verbatim>\<open>MMM\<close>, \<^verbatim>\<open>MMMM\<close>, \<^verbatim>\<open>d\<close>, \<^verbatim>\<open>dd\<close>, \<^verbatim>\<open>HH\<close> and \<^verbatim>\<open>mm\<close> from the local time
  and copies characters that are neither letters nor quotes nor line breaks. A letter for which
  date-fns has no formatter makes it throw a \<^verbatim>\<open>RangeError\<close>. Every other run (further
  tokens, quoted text) and every call with a locale is beyond the model.
\<close>

definition monthNames :: "string list" where
  "monthNames =
     [''January'', ''February'', ''March'', ''April'', ''May'', ''June'', ''July'', ''August'',
      ''September'', ''October'', ''November'', ''December'']"

definition isLatinLetter :: "char \<Rightarrow> bool" where
  "isLatinLetter c = (c \<in> set ''ABCDEFGHIJKLMNOPQRSTUVWXYZabcdefghijklmnopqrstuvwxyz'')"

fun tokens :: "string \<Rightarrow> string list" where
  "tokens [] = []"
| "tokens (c # cs) =
     (case tokens cs of
        (x # t) # ts \<Rightarrow> (if x = c then (c # x # t) # ts else [c] # (x # t) # ts)
      | _ \<Rightarrow> [[c]])"

datatype piece = Text string | Unescaped char | Beyond

definition formatToken :: "int \<Rightarrow> string \<Rightarrow> piece" where
  "formatToken lt tok =
     (if tok = ''yyyy'' then
        Text (padStart 4 (nat (if 0 < YearFromTime lt then YearFromTime lt else 1 - YearFromTime lt)))
      else if tok = ''MM'' then Text (padStart 2 (nat (MonthFromTime lt + 1)))
      else if tok = ''MMM'' then Text (take 3 (monthNames ! nat (MonthFromTime lt)))
      else if tok = ''MMMM'' then Text (monthNames ! nat (MonthFromTime lt))
      else if tok = ''d'' then Text (digitsOf (nat (DateFromTime lt)))
      else if tok = ''dd'' then Text (padStart 2 (nat (DateFromTime lt)))
      else if tok = ''HH'' then Text (padStart 2 (nat (HourFromTime lt)))
      else if tok = ''mm'' then Text (padStart 2 (nat (MinFromTime lt)))
      else (case tok of
              [] \<Rightarrow> Text []
            | c # cs \<Rightarrow>
                if c \<in> set ''ACFJNUVWZfgjlnrv'' then Unescaped c
                else if isLatinLetter c \<or> c \<in> set [CHR 0x27, CHR 0x0A, CHR 0x0D] then Beyond
                else Text tok))"

definition dateFns_format ::
  "(int \<Rightarrow> bool \<Rightarrow> int) \<Rightarrow> (Date \<Rightarrow> string \<Rightarrow> Locale option \<Rightarrow> thrown + string) \<Rightarrow>
   Date \<Rightarrow> string \<Rightarrow> Locale option \<Rightarrow> thrown + string" where
  "dateFns_format tza beyond d pattern loc =
     (case timeValue d of
        None \<Rightarrow> Inl (ErrorInstance ''Invalid time value'')
      | Some t \<Rightarrow>
          (let pieces = map (formatToken (t + tza t True)) (tokens pattern)
           in case loc of
                Some l \<Rightarrow> beyond d pattern loc
              | None \<Rightarrow>
                  if Beyond \<in> set pieces then beyond d pattern loc
                  else
                    (case [c. Unescaped c \<leftarrow> pieces] of
                       c # cs \<Rightarrow>
                         Inl (ErrorInstance
                           (''Format string contains an unescaped latin alphabet character `'' @
                            [c] @ ''`''))
                     | [] \<Rightarrow> Inr (concat [s. Text s \<leftarrow> pieces]))))"

text \<open>
  \<^verbatim>\<open>formatDistance\<close> in a zone with a fixed offset, for distances below thirty days: whole
  seconds, minutes rounded half up, then the wording of the default locale. Longer distances
  count calendar months and are beyond the model.
\<close>

definition distanceInWords :: "int \<Rightarrow> string option" where
  "distanceInWords minutes =
     (if minutes = 0 then Some ''less than a minute''
      else if minutes = 1 then Some ''1 minute''
      else if minutes < 45 then Some (digitsOf (nat minutes) @ '' minutes'')
      else if minutes < 90 then Some ''about 1 hour''
      else if minutes < 1440 then Some (''about '' @ digitsOf (nat ((minutes + 30) div 60)) @ '' hours'')
      else if minutes < 2520 then Some ''1 day''
      else if minutes < 43200 then Some (digitsOf (nat ((minutes + 720) div 1440)) @ '' days'')
      else None)"

definition dateFns_formatDistance ::
  "(Date \<Rightarrow> Date \<Rightarrow> bool \<Rightarrow> thrown + string) \<Rightarrow> Date \<Rightarrow> Date \<Rightarrow> bool \<Rightarrow> thrown + string" where
  "dateFns_formatDistance beyond d base addSuffix =
     (case timeValue d of
        None \<Rightarrow> Inl (ErrorInstance ''Invalid time value'')
      | Some t \<Rightarrow>
          (case timeValue base of
             None \<Rightarrow> Inl (ErrorInstance ''Invalid time value'')
           | Some b \<Rightarrow>
               (let seconds = \<bar>b - t\<bar> div 1000;
                    minutes = (seconds + 30) div 60
                in case distanceInWords minutes of
                     None \<Rightarrow> beyond d base addSuffix
                   | Some w \<Rightarrow>
                       Inr (if addSuffix then (if b < t then ''in '' @ w else w @ '' ago'')
                            else w))))"

definition beyondModel :: thrown where
  "beyondModel = NonError ''beyond the modelled part of date-fns''"

text \<open>A host in a zone with the given fixed offset, whose clock reads \<open>now\<close> and then a
  millisecond more at each further reading, and whose \<^verbatim>\<open>Date.parse\<close> knows the standard
  format only.\<close>

definition fixedOffsetHost :: "int \<Rightarrow> int \<Rightarrow> host" where
  "fixedOffsetHost now offset =
     \<lparr>clock = (\<lambda>k. now + int k),
      LocalTZA = (\<lambda>t isUTC. offset),
      parseFallback = (\<lambda>s. None),
      format = dateFns_format (\<lambda>t isUTC. offset) (\<lambda>d p l. Inl beyondModel),
      formatDistance = dateFns_formatDistance (\<lambda>d b s. Inl beyondModel)\<rparr>"

text \<open>The same host with collaborators that throw \<open>e\<close> whatever they are given.\<close>

definition throwingHost :: "thrown \<Rightarrow> host" where
  "throwingHost e =
     (fixedOffsetHost 0 0)\<lparr>format := (\<lambda>d p l. Inl e), formatDistance := (\<lambda>d b s. Inl e)\<rparr>"

definition noOptions :: DateUtilOptions where
  "noOptions = \<lparr>locale = None, timestampUnit = None, customFormat = None\<rparr>"


text \<open>The host of the examples: UTC, at 2023-11-14T22:13:20Z.\<close>

definition utcHost :: host where
  "utcHost = fixedOffsetHost 1700000000000 0"

text \<open>A string \<^verbatim>\<open>YYYY-MM-DDTHH:mm:ss.sssZ\<close> as \<^verbatim>\<open>toISOString\<close> writes it: a day that its month
  has, an hour up to 23, minutes and seconds up to 59.\<close>

definition isoCanonical :: "string \<Rightarrow> bool" where
  "isoCanonical s =
     (matchesDateTimeUTC s \<and>
      1 \<le> field s 5 2 \<and> field s 5 2 \<le> 12 \<and>
      1 \<le> field s 8 2 \<and> field s 8 2 \<le> DaysInMonth (field s 0 4) (field s 5 2) \<and>
      field s 11 2 \<le> 23 \<and> field s 14 2 \<le> 59 \<and> field s 17 2 \<le> 59)"

text \<open>The pattern that the switch of \<^verbatim>\<open>formatDate\<close> passes to \<^verbatim>\<open>format\<close> for a named format
  (lines 122 to 144 and 158 to 160).\<close>

definition fixedPattern :: "DateOutputFormat \<Rightarrow> string option" where
  "fixedPattern f =
     (if f = ''YYYY-MM-DD'' then Some ''yyyy-MM-dd''
      else if f = ''YYYY-MM-DD HH:MM'' then Some ''yyyy-MM-dd HH:mm''
      else if f = ''MMM D, YYYY'' then Some ''MMM d, yyyy''
      else if f = ''MMMM D, YYYY'' then Some ''MMMM d, yyyy''
      else if f = ''MMM D, HH:mm'' then Some ''MMM d, HH:mm''
      else if f = ''MMM D YYYY, HH:mm'' then Some ''MMM d, yyyy, HH:mm''
      else if f = ''month-day'' then Some ''MMM d''
      else None)"

section \<open>Calendar arithmetic\<close>

text \<open>Linear bounds on \<open>DayFromYear\<close>, its step from one year to the next, and from these the
  year of a day number.\<close>

lemma div_bounds:
  fixes x k :: int
  assumes "0 < k"
  shows "k * (x div k) \<le> x" "x < k * (x div k) + k"
proof -
  have "k * (x div k) + x mod k = x" by simp
  moreover have "0 \<le> x mod k" "x mod k < k" using assms by simp_all
  ultimately show "k * (x div k) \<le> x" "x < k * (x div k) + k" by linarith+
qed

lemma DayFromYear_flat:
  "DayFromYear y = 365 * y - 719050 + (y - 1969) div 4 - (y - 1901) div 100 + (y - 1601) div 400"
  by (simp add: DayFromYear_def)

lemma DayFromYear_lower: "146097 * y - 287811596 \<le> 400 * DayFromYear y"
  using div_bounds[of 4 "y - 1969", simplified] div_bounds[of 100 "y - 1901", simplified]
    div_bounds[of 400 "y - 1601", simplified] DayFromYear_flat[of y]
  by linarith

lemma DayFromYear_upper: "400 * DayFromYear y \<le> 146097 * y - 287810501"
  using div_bounds[of 4 "y - 1969", simplified] div_bounds[of 100 "y - 1901", simplified]
    div_bounds[of 400 "y - 1601", simplified] DayFromYear_flat[of y]
  by linarith

lemma div_succ:
  fixes x k :: int
  assumes "0 < k"
  shows "(x + 1) div k = x div k + (if (x + 1) mod k = 0 then 1 else 0)"
proof (cases "(x + 1) mod k = 0")
  case True
  then have "k dvd x + 1" by (simp add: dvd_eq_mod_eq_0)
  then obtain q where q: "x + 1 = k * q" by (auto simp: dvd_def)
  then have x: "x = k * (q - 1) + (k - 1)" by (simp add: algebra_simps)
  have "(k * (q - 1) + (k - 1)) div k = q - 1"
    using assms by (simp add: div_pos_pos_trivial)
  then have "x div k = q - 1" using x by simp
  moreover have "(x + 1) div k = q" using assms q by simp
  ultimately show ?thesis using True by simp
next
  case False
  have r: "0 \<le> x mod k" "x mod k < k" using assms by simp_all
  have "x mod k + 1 \<noteq> k"
  proof
    assume "x mod k + 1 = k"
    then have "(x + 1) mod k = 0"
      by (metis mod_add_left_eq mod_self)
    with False show False by simp
  qed
  then have lt: "x mod k + 1 < k" using r by linarith
  have "x + 1 = k * (x div k) + (x mod k + 1)" by simp
  then have "(x + 1) div k = (k * (x div k) + (x mod k + 1)) div k" by simp
  also have "\<dots> = x div k + (x mod k + 1) div k"
    using assms by (simp only: div_mult_self2 add.commute[of "k * (x div k)"])
  also have "(x mod k + 1) div k = 0" using r lt by (simp add: div_pos_pos_trivial)
  finally show ?thesis using False by simp
qed

lemma mod_shift:
  "((y::int) - 1969 + 1) mod 4 = y mod 4"
  "((y::int) - 1901 + 1) mod 100 = y mod 100"
  "((y::int) - 1601 + 1) mod 400 = y mod 400"
proof -
  have "y - 1969 + 1 = y + 4 * (- 492)" by simp
  then show "(y - 1969 + 1) mod 4 = y mod 4" by (metis mod_mult_self2)
  have "y - 1901 + 1 = y + 100 * (- 19)" by simp
  then show "(y - 1901 + 1) mod 100 = y mod 100" by (metis mod_mult_self2)
  have "y - 1601 + 1 = y + 400 * (- 4)" by simp
  then show "(y - 1601 + 1) mod 400 = y mod 400" by (metis mod_mult_self2)
qed

lemma mod_400_100: "(y::int) mod 400 = 0 \<Longrightarrow> y mod 100 = 0"
proof -
  assume "y mod 400 = 0"
  then have "400 dvd y" by (simp add: dvd_eq_mod_eq_0)
  moreover have "(100::int) dvd 400" by simp
  ultimately have "100 dvd y" by (rule dvd_trans[rotated])
  then show ?thesis by (simp add: dvd_eq_mod_eq_0)
qed

lemma mod_100_4: "(y::int) mod 100 = 0 \<Longrightarrow> y mod 4 = 0"
proof -
  assume "y mod 100 = 0"
  then have "100 dvd y" by (simp add: dvd_eq_mod_eq_0)
  moreover have "(4::int) dvd 100" by simp
  ultimately have "4 dvd y" by (rule dvd_trans[rotated])
  then show ?thesis by (simp add: dvd_eq_mod_eq_0)
qed

lemma DayFromYear_step: "DayFromYear (y + 1) = DayFromYear y + DaysInYear y"
proof -
  have s: "y + 1 - 1969 = y - 1969 + 1" "y + 1 - 1901 = y - 1901 + 1" "y + 1 - 1601 = y - 1601 + 1"
    by simp_all
  have a: "(y - 1969 + 1) div 4 = (y - 1969) div 4 + (if y mod 4 = 0 then 1 else 0)"
    using div_succ[of 4 "y - 1969"] unfolding mod_shift by simp
  have b: "(y - 1901 + 1) div 100 = (y - 1901) div 100 + (if y mod 100 = 0 then 1 else 0)"
    using div_succ[of 100 "y - 1901"] unfolding mod_shift by simp
  have c: "(y - 1601 + 1) div 400 = (y - 1601) div 400 + (if y mod 400 = 0 then 1 else 0)"
    using div_succ[of 400 "y - 1601"] unfolding mod_shift by simp
  show ?thesis
    unfolding DayFromYear_flat DaysInYear_def s a b c
    using mod_400_100[of y] mod_100_4[of y]
    by auto
qed

lemma DaysInYear_pos: "365 \<le> DaysInYear y" "DaysInYear y \<le> 366"
  unfolding DaysInYear_def by auto

lemma YearFromDay_unique:
  assumes "DayFromYear y \<le> d" "d < DayFromYear (y + 1)"
  shows "YearFromDay d = y"
proof -
  define q where "q = (400 * d) div 146097"
  define y0 where "y0 = 1970 + q"
  have e1: "146097 * q \<le> 400 * d"
    unfolding q_def using div_bounds(1)[of 146097 "400 * d", simplified] by simp
  have e2: "400 * d < 146097 * q + 146097"
    unfolding q_def using div_bounds(2)[of 146097 "400 * d", simplified] by simp
  have "y \<le> y0 + 1"
    using DayFromYear_lower[of y] assms(1) e2 unfolding y0_def by linarith
  moreover have "y0 \<le> y + 1"
  proof -
    define z where "z = y + 1"
    have "d < DayFromYear z" using assms(2) by (simp add: z_def)
    then have "q + 1970 \<le> z" using DayFromYear_upper[of z] e1 by linarith
    then show ?thesis by (simp add: z_def y0_def)
  qed
  ultimately consider "y = y0 - 1" | "y = y0" | "y = y0 + 1" by linarith
  then show ?thesis
  proof cases
    case 1
    then have "d < DayFromYear y0" using assms(2) by simp
    then show ?thesis
      unfolding YearFromDay_def q_def[symmetric] y0_def[symmetric] Let_def using 1 by simp
  next
    case 2
    then show ?thesis
      unfolding YearFromDay_def q_def[symmetric] y0_def[symmetric] Let_def using assms by simp
  next
    case 3
    have "DayFromYear y0 \<le> d"
      using DayFromYear_step[of y0] DaysInYear_pos(1)[of y0] assms(1) 3 by simp
    then show ?thesis
      unfolding YearFromDay_def q_def[symmetric] y0_def[symmetric] Let_def using assms 3 by simp
  qed
qed


text \<open>\<open>YearFromDay\<close> is the year ECMA-262 defines: the one whose first day is the last first
  day of a year not after \<open>d\<close>.\<close>

lemma YearFromDay_correct:
  "DayFromYear (YearFromDay d) \<le> d \<and> d < DayFromYear (YearFromDay d + 1)"
proof -
  define q where "q = (400 * d) div 146097"
  define y0 where "y0 = 1970 + q"
  define a where "a = y0 - 1"
  define b where "b = y0 + 2"
  have e1: "146097 * q \<le> 400 * d"
    unfolding q_def using div_bounds(1)[of 146097 "400 * d", simplified] by simp
  have e2: "400 * d < 146097 * q + 146097"
    unfolding q_def using div_bounds(2)[of 146097 "400 * d", simplified] by simp
  have "a = q + 1969" "b = q + 1972" by (simp_all add: a_def b_def y0_def)
  then have lo: "DayFromYear a \<le> d" and hi: "d < DayFromYear b"
    using DayFromYear_upper[of a] DayFromYear_lower[of b] e1 e2 by linarith+
  have s1: "y0 - 1 + 1 = y0" and s2: "y0 + 1 + 1 = y0 + 2" by simp_all
  show ?thesis
    unfolding YearFromDay_def q_def[symmetric] y0_def[symmetric] Let_def
    using lo hi by (auto simp: a_def b_def s1 s2)
qed

lemma div_mod_decomp:
  fixes k q r :: int
  assumes "0 \<le> r" "r < k"
  shows "(k * q + r) div k = q" "(k * q + r) mod k = r"
  using assms by (simp_all add: div_pos_pos_trivial mod_pos_pos_trivial)

lemma MakeDay_in_range:
  assumes "1 \<le> m" "m \<le> 12"
  shows "MakeDay y (m - 1) d =
    DayFromYear y + monthStart (m - 1) (if DaysInYear y = 366 then 1 else 0) + d - 1"
proof -
  have "(m - 1) div 12 = 0" "(m - 1) mod 12 = m - 1"
    using assms by (simp_all add: div_pos_pos_trivial mod_pos_pos_trivial)
  then show ?thesis by (simp add: MakeDay_def)
qed

lemma month_cases:
  assumes "1 \<le> (m::int)" "m \<le> 12"
  obtains "m = 1" | "m = 2" | "m = 3" | "m = 4" | "m = 5" | "m = 6"
    | "m = 7" | "m = 8" | "m = 9" | "m = 10" | "m = 11" | "m = 12"
proof -
  have "m = 1 \<or> m = 2 \<or> m = 3 \<or> m = 4 \<or> m = 5 \<or> m = 6 \<or>
        m = 7 \<or> m = 8 \<or> m = 9 \<or> m = 10 \<or> m = 11 \<or> m = 12"
    using assms by presburger
  then show ?thesis using that by blast
qed

lemma day_within_year:
  assumes "1 \<le> m" "m \<le> 12" "1 \<le> d" "d \<le> DaysInMonth y m"
  defines "l \<equiv> (if DaysInYear y = 366 then 1 else 0)"
  shows "0 \<le> monthStart (m - 1) l + d - 1" "monthStart (m - 1) l + d - 1 < DaysInYear y"
proof -
  have l: "l = 0 \<or> l = 1" by (simp add: l_def)
  have diy: "DaysInYear y = 365 + l" using DaysInYear_pos[of y] by (auto simp: l_def)
  show "0 \<le> monthStart (m - 1) l + d - 1"
    using assms(1-3) l by (cases rule: month_cases[OF assms(1,2)]) (auto simp: monthStart_def)
  show "monthStart (m - 1) l + d - 1 < DaysInYear y"
    using assms(3,4) l unfolding diy
    by (cases rule: month_cases[OF assms(1,2)]) (auto simp: monthStart_def DaysInMonth_def l_def)
qed

lemma fields_of_day:
  assumes "1 \<le> m" "m \<le> 12" "1 \<le> d" "d \<le> DaysInMonth y m"
    and "Day t = MakeDay y (m - 1) d"
  shows "YearFromTime t = y" "MonthFromTime t = m - 1" "DateFromTime t = d"
proof -
  define l :: int where "l = (if DaysInYear y = 366 then 1 else 0)"
  have l: "l = 0 \<or> l = 1" by (simp add: l_def)
  have diy: "DaysInYear y = 365 + l" using DaysInYear_pos[of y] by (auto simp: l_def)
  have day: "Day t = DayFromYear y + (monthStart (m - 1) l + d - 1)"
    using assms(5) MakeDay_in_range[OF assms(1,2), of y d] by (simp add: l_def)
  have r: "0 \<le> monthStart (m - 1) l + d - 1" "monthStart (m - 1) l + d - 1 < DaysInYear y"
    using day_within_year[OF assms(1-4)] by (simp_all add: l_def)
  have "YearFromDay (Day t) = y"
    by (rule YearFromDay_unique) (use day r DayFromYear_step[of y] in linarith)+
  then show y: "YearFromTime t = y" by (simp add: YearFromTime_def)
  have dwy: "DayWithinYear t = monthStart (m - 1) l + d - 1"
    by (simp add: DayWithinYear_def y day)
  have leap: "InLeapYear t = l" by (simp add: InLeapYear_def y l_def)
  show mo: "MonthFromTime t = m - 1"
    unfolding MonthFromTime_def dwy leap Let_def
    using assms(3,4) l
    by (cases rule: month_cases[OF assms(1,2)]) (auto simp: monthStart_def DaysInMonth_def l_def)
  show "DateFromTime t = d"
    unfolding DateFromTime_def mo dwy leap Let_def
    by (cases rule: month_cases[OF assms(1,2)]) (auto simp: monthStart_def)
qed

lemma fields_of_time:
  assumes "0 \<le> hh" "hh \<le> 23" "0 \<le> mi" "mi \<le> 59" "0 \<le> ss" "ss \<le> 59" "0 \<le> ms" "ms < 1000"
    and "t = MakeDate day (MakeTime hh mi ss ms)"
  shows "Day t = day" "HourFromTime t = hh" "MinFromTime t = mi" "SecFromTime t = ss"
    "msFromTime t = ms"
proof -
  have t: "t = 86400000 * day + (3600000 * hh + 60000 * mi + 1000 * ss + ms)"
    using assms(9) by (simp add: MakeDate_def MakeTime_def msPerDay_def)
  have "0 \<le> 3600000 * hh + 60000 * mi + 1000 * ss + ms"
    "3600000 * hh + 60000 * mi + 1000 * ss + ms < 86400000"
    using assms(1-8) by linarith+
  then show "Day t = day"
    unfolding Day_def msPerDay_def t by (rule div_mod_decomp(1))
  have t1: "t = 3600000 * (24 * day + hh) + (60000 * mi + 1000 * ss + ms)"
    unfolding t by simp
  have "0 \<le> 60000 * mi + 1000 * ss + ms" "60000 * mi + 1000 * ss + ms < 3600000"
    using assms(1-8) by linarith+
  then have "t div 3600000 = 24 * day + hh"
    unfolding t1 by (rule div_mod_decomp(1))
  then show "HourFromTime t = hh"
    using assms(1,2) div_mod_decomp(2)[of hh 24 day] by (simp add: HourFromTime_def)
  have t2: "t = 60000 * (1440 * day + 60 * hh + mi) + (1000 * ss + ms)"
    unfolding t by simp
  have "0 \<le> 1000 * ss + ms" "1000 * ss + ms < 60000"
    using assms(1-8) by linarith+
  then have "t div 60000 = 60 * (24 * day + hh) + mi"
    unfolding t2 using div_mod_decomp(1)[of "1000 * ss + ms" 60000 "1440 * day + 60 * hh + mi"]
    by simp
  then show "MinFromTime t = mi"
    using assms(3,4) div_mod_decomp(2)[of mi 60 "24 * day + hh"] by (simp add: MinFromTime_def)
  have t3: "t = 1000 * (86400 * day + 3600 * hh + 60 * mi + ss) + ms"
    unfolding t by simp
  have "t div 1000 = 60 * (1440 * day + 60 * hh + mi) + ss"
    unfolding t3 using div_mod_decomp(1)[of ms 1000 "86400 * day + 3600 * hh + 60 * mi + ss"] assms(7,8)
    by simp
  then show "SecFromTime t = ss"
    using assms(5,6) div_mod_decomp(2)[of ss 60 "1440 * day + 60 * hh + mi"]
    by (simp add: SecFromTime_def)
  show "msFromTime t = ms"
    unfolding msFromTime_def t3 using assms(7,8) by (rule div_mod_decomp(2))
qed

section \<open>Digit strings\<close>

lemma digit_round_trip:
  assumes "isDigit c"
  shows "digitValue c < 10" "digitChar (digitValue c) = c"
  using assms by (auto simp: isDigit_def digitValue_def digitChar_def)

lemma decimal_snoc: "decimal (ds @ [c]) = 10 * decimal ds + digitValue c"
  by (simp add: decimal_def)

lemma digitsOf_small: "v < 10 \<Longrightarrow> digitsOf v = [digitChar v]"
  by (simp add: digitsOf.simps)

lemma digitsOf_step:
  assumes "v < 10" "0 < n"
  shows "digitsOf (10 * n + v) = digitsOf n @ [digitChar v]"
proof -
  have "\<not> 10 * n + v < 10" using assms by simp
  moreover have "(10 * n + v) div 10 = n" "(10 * n + v) mod 10 = v" using assms by simp_all
  ultimately show ?thesis by (subst digitsOf.simps) simp
qed

lemma digitsOf_nonempty: "digitsOf n \<noteq> []"
  by (subst digitsOf.simps) simp

lemma padStart_decimal:
  assumes "list_all isDigit ds" "ds \<noteq> []"
  shows "padStart (length ds) (decimal ds) = ds \<and> length (digitsOf (decimal ds)) \<le> length ds"
  using assms
proof (induction ds rule: rev_induct)
  case Nil
  then show ?case by simp
next
  case (snoc c xs)
  then have c: "isDigit c" and xs: "list_all isDigit xs" by simp_all
  note dc = digit_round_trip[OF c]
  show ?case
  proof (cases "xs = []")
    case True
    then show ?thesis
      using dc by (simp add: decimal_def padStart_def digitsOf_small)
  next
    case False
    with snoc.IH xs have ih: "padStart (length xs) (decimal xs) = xs"
      and len: "length (digitsOf (decimal xs)) \<le> length xs" by simp_all
    show ?thesis
    proof (cases "decimal xs = 0")
      case True
      have z: "digitsOf 0 = ''0''" by (simp add: digitsOf.simps digitChar_def)
      from ih have "xs = replicate (length xs - 1) (CHR ''0'') @ ''0''"
        by (simp add: padStart_def True z)
      also have "\<dots> = replicate (length xs) (CHR ''0'')"
        using False by (cases xs) (simp_all add: replicate_append_same)
      finally have x: "replicate (length xs) (CHR ''0'') = xs" by simp
      show ?thesis
        using dc by (simp add: decimal_snoc True padStart_def digitsOf_small x)
    next
      case False
      then have pos: "0 < decimal xs" by simp
      have d: "digitsOf (decimal (xs @ [c])) = digitsOf (decimal xs) @ [c]"
        using digitsOf_step[OF dc(1) pos] dc(2) by (simp add: decimal_snoc)
      have "padStart (length (xs @ [c])) (decimal (xs @ [c])) =
          padStart (length xs) (decimal xs) @ [c]"
        by (simp add: padStart_def d)
      then show ?thesis using ih len by (simp add: d)
    qed
  qed
qed

lemma decimal_less:
  assumes "list_all isDigit ds"
  shows "decimal ds < 10 ^ length ds"
  using assms
proof (induction ds rule: rev_induct)
  case Nil
  then show ?case by (simp add: decimal_def)
next
  case (snoc c xs)
  then have "decimal xs < 10 ^ length xs" and "digitValue c < 10"
    using digit_round_trip(1) by simp_all
  then have "10 * decimal xs + digitValue c < 10 * 10 ^ length xs" by linarith
  then show ?case by (simp add: decimal_snoc)
qed

lemma length_24:
  assumes "length s = 24"
  obtains c0 c1 c2 c3 c4 c5 c6 c7 c8 c9 c10 c11 c12 c13 c14 c15 c16 c17 c18 c19 c20 c21 c22 c23
  where "s = [c0, c1, c2, c3, c4, c5, c6, c7, c8, c9, c10, c11, c12, c13, c14, c15, c16, c17,
              c18, c19, c20, c21, c22, c23]"
proof -
  have u: "[0..<24] = [0, 1, 2, 3, 4, 5, 6, 7, 8, 9, 10, 11, 12, 13, 14, 15, 16, 17, 18, 19, 20,
      21, 22, 23 :: nat]"
    by code_simp
  have "s = map (\<lambda>i. s ! i) [0..<24]"
    using map_nth[of s] assms by simp
  then have eq: "s = [s ! 0, s ! 1, s ! 2, s ! 3, s ! 4, s ! 5, s ! 6, s ! 7, s ! 8, s ! 9, s ! 10, s ! 11, s ! 12, s ! 13, s ! 14, s ! 15, s ! 16, s ! 17, s ! 18, s ! 19, s ! 20, s ! 21, s ! 22, s ! 23]"
    unfolding u by simp
  show ?thesis by (rule that[OF eq])
qed

lemma dateTime_shape:
  assumes "matchesDateTimeUTC s"
  shows "s = take 4 s @ ''-'' @ take 2 (drop 5 s) @ ''-'' @ take 2 (drop 8 s) @ ''T'' @
             take 2 (drop 11 s) @ '':'' @ take 2 (drop 14 s) @ '':'' @ take 2 (drop 17 s) @ ''.'' @
             take 3 (drop 20 s) @ ''Z''"
    and "list_all isDigit (take 4 s)" "list_all isDigit (take 2 (drop 5 s))"
      "list_all isDigit (take 2 (drop 8 s))" "list_all isDigit (take 2 (drop 11 s))"
      "list_all isDigit (take 2 (drop 14 s))" "list_all isDigit (take 2 (drop 17 s))"
      "list_all isDigit (take 3 (drop 20 s))"
    and "length (take 4 s) = 4" "length (take 2 (drop 5 s)) = 2" "length (take 2 (drop 8 s)) = 2"
      "length (take 2 (drop 11 s)) = 2" "length (take 2 (drop 14 s)) = 2"
      "length (take 2 (drop 17 s)) = 2" "length (take 3 (drop 20 s)) = 3"
proof -
  from assms have "length s = 24" by (simp add: matchesDateTimeUTC_def)
  then obtain c0 c1 c2 c3 c4 c5 c6 c7 c8 c9 c10 c11 c12 c13 c14 c15 c16 c17 c18 c19 c20 c21 c22 c23
    where s: "s = [c0, c1, c2, c3, c4, c5, c6, c7, c8, c9, c10, c11, c12, c13, c14, c15, c16, c17,
              c18, c19, c20, c21, c22, c23]"
    by (rule length_24)
  from assms show "s = take 4 s @ ''-'' @ take 2 (drop 5 s) @ ''-'' @ take 2 (drop 8 s) @ ''T'' @
             take 2 (drop 11 s) @ '':'' @ take 2 (drop 14 s) @ '':'' @ take 2 (drop 17 s) @ ''.'' @
             take 3 (drop 20 s) @ ''Z''"
    unfolding s matchesDateTimeUTC_def matchesYMD_def by simp
  from assms show "list_all isDigit (take 4 s)" "list_all isDigit (take 2 (drop 5 s))"
      "list_all isDigit (take 2 (drop 8 s))" "list_all isDigit (take 2 (drop 11 s))"
      "list_all isDigit (take 2 (drop 14 s))" "list_all isDigit (take 2 (drop 17 s))"
      "list_all isDigit (take 3 (drop 20 s))"
    unfolding s matchesDateTimeUTC_def matchesYMD_def by simp_all
  show "length (take 4 s) = 4" "length (take 2 (drop 5 s)) = 2" "length (take 2 (drop 8 s)) = 2"
      "length (take 2 (drop 11 s)) = 2" "length (take 2 (drop 14 s)) = 2"
      "length (take 2 (drop 17 s)) = 2" "length (take 3 (drop 20 s)) = 3"
    unfolding s by simp_all
qed

lemma formatDate_parse_valid_string:
  assumes "isValid (newDate_string h s)"
  shows "formatDate_parse h (InString s) u = Some (newDate_string h s)"
  using assms by (simp add: formatDate_parse_def)

lemma digits_pad:
  assumes "list_all isDigit ds" "length ds = n" "0 < n"
  shows "padStart n (decimal ds) = ds" "decimal ds < 10 ^ n"
proof -
  have "ds \<noteq> []" using assms(2,3) by auto
  from padStart_decimal[OF assms(1) this] show "padStart n (decimal ds) = ds"
    using assms(2) by simp
  show "decimal ds < 10 ^ n" using decimal_less[OF assms(1)] assms(2) by simp
qed

lemma field_range:
  assumes "list_all isDigit (take n (drop i s))" "length (take n (drop i s)) = n" "0 < n"
  shows "0 \<le> field s i n" "field s i n < 10 ^ n"
    "padStart n (nat (field s i n)) = take n (drop i s)"
proof -
  define ds where "ds = take n (drop i s)"
  have f: "field s i n = int (decimal ds)" by (simp add: field_def ds_def)
  show "0 \<le> field s i n" by (simp add: f)
  have "decimal ds < 10 ^ n"
    using digits_pad(2)[of ds n] assms by (simp add: ds_def)
  then have "int (decimal ds) < int (10 ^ n)" by (simp only: of_nat_less_iff)
  then show "field s i n < 10 ^ n" by (simp add: f)
  have "padStart n (decimal ds) = ds"
    using digits_pad(1)[of ds n] assms by (simp add: ds_def)
  then show "padStart n (nat (field s i n)) = take n (drop i s)"
    by (simp add: f ds_def)
qed

section \<open>The shape of a result\<close>

lemma successful_fields [simp]:
  "success (successful v d)" "value (successful v d) = Some v"
  "error (successful v d) = None" "date (successful v d) = Some d"
  by (simp_all add: successful_def)

lemma failure_fields [simp]:
  "\<not> success (failure m)" "value (failure m) = None"
  "error (failure m) = Some m" "date (failure m) = None"
  by (simp_all add: failure_def)

lemma formatDate_parse_InDate: "formatDate_parse h (InDate d) u = Some d"
  by (simp add: formatDate_parse_def)

lemma getSmartDate_parse_InDate: "getSmartDate_parse h (InDate d) u = Some d"
  by (simp add: getSmartDate_parse_def)

text \<open>Both functions use their input only through the \<^verbatim>\<open>Date\<close> it is turned into.\<close>

lemma formatDate_via_parse:
  assumes "formatDate_parse h input (unitOf opts) = Some d"
  shows "formatDate h input f opts = formatDate h (InDate d) f opts"
  using assms by (simp add: formatDate_def formatDate_try_def formatDate_parse_InDate)

lemma getSmartDate_via_parse:
  assumes "getSmartDate_parse h input (unitOf opts) = Some d"
  shows "getSmartDate h input opts = getSmartDate h (InDate d) opts"
  using assms by (simp add: getSmartDate_def getSmartDate_parse_InDate)

lemma formatDate_parse_None:
  assumes "formatDate_parse h input (unitOf opts) = None"
  shows "formatDate h input f opts = failure ''Unsupported input format.''"
  using assms by (simp add: formatDate_def formatDate_try_def)

lemma assignString_shape:
  "assignString r d = Inl e \<Longrightarrow> r = Inl e"
  "assignString r d = Inr x \<Longrightarrow> \<exists>v. r = Inr v \<and> x = successful (Str v) d"
  by (auto simp: assignString_def split: sum.splits)

lemma formatDate_try_InDate_shape:
  assumes "formatDate_try h (InDate d) f opts = Inr r"
  shows "(\<exists>m. r = failure m) \<or> (\<exists>v. isValid d \<and> r = successful v d)"
  using assms
  unfolding formatDate_try_def formatDate_parse_InDate Let_def
  by (auto split: if_splits option.splits sum.splits dest: assignString_shape)

lemma formatDate_InDate_shape:
  "(\<exists>m. formatDate h (InDate d) f opts = failure m) \<or>
   (\<exists>v. isValid d \<and> formatDate h (InDate d) f opts = successful v d)"
proof (cases "formatDate_try h (InDate d) f opts")
  case (Inl e)
  then have "formatDate h (InDate d) f opts = failure (''Date parsing error: '' @ thrownText e)"
    by (simp add: formatDate_def)
  then show ?thesis by blast
next
  case (Inr r)
  then have "formatDate h (InDate d) f opts = r" by (simp add: formatDate_def)
  then show ?thesis using formatDate_try_InDate_shape[OF Inr] by simp
qed

lemma formatDate_shape:
  "(\<exists>m. formatDate h input f opts = failure m) \<or>
   (\<exists>v d. formatDate_parse h input (unitOf opts) = Some d \<and> isValid d \<and>
      formatDate h input f opts = successful v d \<and>
      formatDate h (InDate d) f opts = successful v d)"
proof (cases "formatDate_parse h input (unitOf opts)")
  case None
  then show ?thesis using formatDate_parse_None by blast
next
  case (Some d)
  then show ?thesis
    using formatDate_via_parse[OF Some, of f] formatDate_InDate_shape[of h d f opts] by auto
qed

section \<open>Numeric input\<close>

lemma parse_InNumber:
  "formatDate_parse h (InNumber n) (unitOf opts) =
     Some (newDate_number (if greaterThan n 10000000000 \<or> timestampUnit opts = Some milliseconds
                           then n else mul n 1000))"
  "getSmartDate_parse h (InNumber n) (unitOf opts) =
     Some (newDate_number (if greaterThan n 10000000000 \<or> timestampUnit opts = Some milliseconds
                           then n else mul n 1000))"
  by (auto simp: formatDate_parse_def getSmartDate_parse_def unitOf_def split: option.splits)

lemma newDate_number_valid:
  "isValid (newDate_number v) \<longleftrightarrow> (\<exists>t. v = Finite t \<and> \<bar>t\<bar> \<le> 8640000000000000)"
  "isValid (newDate_number v) \<Longrightarrow> getTime (newDate_number v) = v"
  "\<bar>t\<bar> \<le> 8640000000000000 \<Longrightarrow> newDate_number (Finite t) = Date (Some t)"
  by (auto simp: newDate_number_def isValid_def getTime_def TimeClip_def split: jsnumber.splits)

lemma timestamp_ms_of_Date:
  "formatDate h (InDate d) ''timestamp-ms'' opts =
     (if isValid d then successful (Num (getTime d)) d else failure ''Invalid date.'')"
  by (simp add: formatDate_def formatDate_try_def formatDate_parse_InDate)

lemma getSmartDate_of_Date:
  "getSmartDate h (InDate d) opts =
     (if isValid d then
        convertDate (afterReading h) (InDate d)
          (if atMost (hoursBetween (newDate_now h) d) 24 then ''relative''
           else if strictEquals (getFullYear h (newDate_now h)) (getFullYear h d)
             then ''MMM D, HH:mm''
           else ''MMM D YYYY, HH:mm'') opts
      else Null)"
  by (simp add: getSmartDate_def getSmartDate_parse_InDate Let_def)


text \<open>
  C2. For every numeric input \<open>n\<close> and every \<^verbatim>\<open>timestampUnit\<close>, both \<^verbatim>\<open>formatDate\<close> and
  \<^verbatim>\<open>getSmartDate\<close> turn \<open>n\<close> into the \<^verbatim>\<open>Date\<close> of \<open>n\<close> milliseconds exactly when \<open>n\<close> exceeds
  10,000,000,000 or the unit is \<^verbatim>\<open>milliseconds\<close>, and into the \<^verbatim>\<open>Date\<close> of \<open>n * 1000\<close>
  milliseconds otherwise. That \<^verbatim>\<open>Date\<close> is what the parsing code of either function yields; it
  is the \<^verbatim>\<open>date\<close> field of every success of \<^verbatim>\<open>formatDate\<close>; its time value is what the format
  \<^verbatim>\<open>timestamp-ms\<close> returns (for an integer \<open>k\<close> in range, \<open>k\<close> or \<open>k * 1000\<close> itself); and it is
  the \<^verbatim>\<open>Date\<close> \<^verbatim>\<open>getSmartDate\<close> compares with the clock and hands to \<^verbatim>\<open>convertDate\<close>. In
  particular a value above 10,000,000,000 is taken as milliseconds even when the caller passes
  the unit \<^verbatim>\<open>seconds\<close>.
\<close>

theorem numeric_input_unit:
  fixes n :: jsnumber and opts :: DateUtilOptions
  defines "v \<equiv> (if greaterThan n 10000000000 \<or> timestampUnit opts = Some milliseconds
                  then n else mul n 1000)"
  shows
  "formatDate_parse h (InNumber n) (unitOf opts) = Some (newDate_number v) \<and>
   getSmartDate_parse h (InNumber n) (unitOf opts) = Some (newDate_number v) \<and>
   formatDate h (InNumber n) f opts = formatDate h (InDate (newDate_number v)) f opts \<and>
   (success (formatDate h (InNumber n) f opts) \<longrightarrow>
      date (formatDate h (InNumber n) f opts) = Some (newDate_number v)) \<and>
   formatDate h (InNumber n) ''timestamp-ms'' opts =
     (if isValid (newDate_number v) then successful (Num v) (newDate_number v)
      else failure ''Invalid date.'') \<and>
   (\<forall>k. n = Finite k \<and>
      \<bar>if 10000000000 < k \<or> timestampUnit opts = Some milliseconds then k else k * 1000\<bar>
        \<le> 8640000000000000 \<longrightarrow>
      formatDate h (InNumber n) ''timestamp-ms'' opts =
        successful
          (Num (Finite (if 10000000000 < k \<or> timestampUnit opts = Some milliseconds
                        then k else k * 1000)))
          (Date (Some (if 10000000000 < k \<or> timestampUnit opts = Some milliseconds
                       then k else k * 1000)))) \<and>
   getSmartDate h (InNumber n) opts = getSmartDate h (InDate (newDate_number v)) opts \<and>
   getSmartDate h (InNumber n) opts =
     (if isValid (newDate_number v) then
        convertDate (afterReading h) (InDate (newDate_number v))
          (if atMost (hoursBetween (newDate_now h) (newDate_number v)) 24 then ''relative''
           else if strictEquals (getFullYear h (newDate_now h)) (getFullYear h (newDate_number v))
             then ''MMM D, HH:mm''
           else ''MMM D YYYY, HH:mm'') opts
      else Null) \<and>
   (greaterThan n 10000000000 \<longrightarrow>
      formatDate_parse h (InNumber n) (unitOf (opts\<lparr>timestampUnit := Some seconds\<rparr>)) =
        Some (newDate_number n) \<and>
      getSmartDate_parse h (InNumber n) (unitOf (opts\<lparr>timestampUnit := Some seconds\<rparr>)) =
        Some (newDate_number n) \<and>
      formatDate h (InNumber n) f (opts\<lparr>timestampUnit := Some seconds\<rparr>) =
        formatDate h (InDate (newDate_number n)) f (opts\<lparr>timestampUnit := Some seconds\<rparr>) \<and>
      getSmartDate h (InNumber n) (opts\<lparr>timestampUnit := Some seconds\<rparr>) =
        getSmartDate h (InDate (newDate_number n)) (opts\<lparr>timestampUnit := Some seconds\<rparr>))"
proof -
  have p: "formatDate_parse h (InNumber n) (unitOf opts) = Some (newDate_number v)"
    and q: "getSmartDate_parse h (InNumber n) (unitOf opts) = Some (newDate_number v)"
    using parse_InNumber[of h n opts] by (simp_all add: v_def)
  have e: "formatDate h (InNumber n) g opts = formatDate h (InDate (newDate_number v)) g opts" for g
    by (rule formatDate_via_parse[OF p])
  have d: "date (formatDate h (InNumber n) f opts) = Some (newDate_number v)"
    if "success (formatDate h (InNumber n) f opts)"
    using that formatDate_shape[of h "InNumber n" f opts] p by auto
  have ms: "formatDate h (InNumber n) ''timestamp-ms'' opts =
     (if isValid (newDate_number v) then successful (Num v) (newDate_number v)
      else failure ''Invalid date.'')"
    unfolding e timestamp_ms_of_Date using newDate_number_valid(2)[of v] by simp
  have g: "getSmartDate h (InNumber n) opts = getSmartDate h (InDate (newDate_number v)) opts"
    by (rule getSmartDate_via_parse[OF q])
  have fin: "formatDate h (InNumber n) ''timestamp-ms'' opts =
        successful
          (Num (Finite (if 10000000000 < k \<or> timestampUnit opts = Some milliseconds
                        then k else k * 1000)))
          (Date (Some (if 10000000000 < k \<or> timestampUnit opts = Some milliseconds
                       then k else k * 1000)))"
    if "n = Finite k \<and>
      \<bar>if 10000000000 < k \<or> timestampUnit opts = Some milliseconds then k else k * 1000\<bar>
        \<le> 8640000000000000" for k
  proof -
    define m where "m = (if 10000000000 < k \<or> timestampUnit opts = Some milliseconds
      then k else k * 1000)"
    have "v = Finite m" using that by (simp add: v_def m_def)
    moreover have "\<bar>m\<bar> \<le> 8640000000000000" using that by (simp add: m_def)
    ultimately have "newDate_number v = Date (Some m)" "isValid (newDate_number v)"
      using newDate_number_valid(1)[of v] newDate_number_valid(3)[of m] by auto
    then show ?thesis using ms \<open>v = Finite m\<close> by (simp add: m_def)
  qed
  let ?o = "opts\<lparr>timestampUnit := Some seconds\<rparr>"
  have big: "formatDate_parse h (InNumber n) (unitOf ?o) = Some (newDate_number n)"
      "getSmartDate_parse h (InNumber n) (unitOf ?o) = Some (newDate_number n)"
    if "greaterThan n 10000000000"
    using parse_InNumber[of h n ?o] that by simp_all
  have g': "getSmartDate h (InNumber n) opts =
     (if isValid (newDate_number v) then
        convertDate (afterReading h) (InDate (newDate_number v))
          (if atMost (hoursBetween (newDate_now h) (newDate_number v)) 24 then ''relative''
           else if strictEquals (getFullYear h (newDate_now h)) (getFullYear h (newDate_number v))
             then ''MMM D, HH:mm''
           else ''MMM D YYYY, HH:mm'') opts
      else Null)"
    unfolding g by (rule getSmartDate_of_Date)
  show ?thesis
    using p q e[of f] d ms fin g g' big formatDate_via_parse[OF big(1), of f]
      getSmartDate_via_parse[OF big(2)]
    by blast
qed


text \<open>The number 1700000000000 with the unit \<^verbatim>\<open>seconds\<close> is the instant of 1700000000000
  milliseconds; 1684150200 is 1684150200000 milliseconds by default and 1684150200
  milliseconds with the unit \<^verbatim>\<open>milliseconds\<close>; \<^verbatim>\<open>getSmartDate\<close> renders 1609906400 seconds and
  1609906400000 (unit \<^verbatim>\<open>seconds\<close>) as the same day in January 2021, and 1609906400 with the
  unit \<^verbatim>\<open>milliseconds\<close> as a day in January 1970.\<close>

theorem numeric_input_unit_witness:
  "greaterThan (Finite 1700000000000) 10000000000 \<and>
   formatDate utcHost (InNumber (Finite 1700000000000)) ''timestamp-ms''
     (noOptions\<lparr>timestampUnit := Some seconds\<rparr>) =
     successful (Num (Finite 1700000000000)) (Date (Some 1700000000000)) \<and>
   formatDate utcHost (InNumber (Finite 1684150200)) ''timestamp-ms'' noOptions =
     successful (Num (Finite 1684150200000)) (Date (Some 1684150200000)) \<and>
   formatDate utcHost (InNumber (Finite 1684150200)) ''timestamp-ms''
     (noOptions\<lparr>timestampUnit := Some milliseconds\<rparr>) =
     successful (Num (Finite 1684150200)) (Date (Some 1684150200)) \<and>
   getSmartDate utcHost (InNumber (Finite 1609906400)) noOptions =
     Rendered (Str ''Jan 6, 2021, 04:13'') \<and>
   getSmartDate utcHost (InNumber (Finite 1609906400000))
     (noOptions\<lparr>timestampUnit := Some seconds\<rparr>) = Rendered (Str ''Jan 6, 2021, 04:13'') \<and>
   getSmartDate utcHost (InNumber (Finite 1609906400))
     (noOptions\<lparr>timestampUnit := Some milliseconds\<rparr>) = Rendered (Str ''Jan 19, 1970, 15:11'')"
proof -
  let ?s = "noOptions\<lparr>timestampUnit := Some seconds\<rparr>"
  let ?m = "noOptions\<lparr>timestampUnit := Some milliseconds\<rparr>"
  have u: "timestampUnit noOptions = None" "timestampUnit ?s = Some seconds"
    "timestampUnit ?m = Some milliseconds"
    by (simp_all add: noOptions_def)
  have a: "getSmartDate utcHost (InDate (newDate_number (mul (Finite 1609906400) 1000))) noOptions =
      Rendered (Str ''Jan 6, 2021, 04:13'')"
    and b: "getSmartDate utcHost (InDate (newDate_number (Finite 1609906400000))) ?s =
      Rendered (Str ''Jan 6, 2021, 04:13'')"
    and c: "getSmartDate utcHost (InDate (newDate_number (Finite 1609906400))) ?m =
      Rendered (Str ''Jan 19, 1970, 15:11'')"
    by code_simp+
  have d: "formatDate utcHost (InDate (newDate_number (Finite 1700000000000))) ''timestamp-ms'' ?s =
      successful (Num (Finite 1700000000000)) (Date (Some 1700000000000))"
    "formatDate utcHost (InDate (newDate_number (Finite 1684150200000))) ''timestamp-ms'' noOptions =
      successful (Num (Finite 1684150200000)) (Date (Some 1684150200000))"
    "formatDate utcHost (InDate (newDate_number (Finite 1684150200))) ''timestamp-ms'' ?m =
      successful (Num (Finite 1684150200)) (Date (Some 1684150200))"
    by code_simp+
  show ?thesis
    using numeric_input_unit[where n = "Finite 1700000000000" and opts = "?s" and h = utcHost and f = "''timestamp-ms''"]
      numeric_input_unit[where n = "Finite 1684150200" and opts = "noOptions" and h = utcHost and f = "''timestamp-ms''"]
      numeric_input_unit[where n = "Finite 1684150200" and opts = "?m" and h = utcHost and f = "''timestamp-ms''"]
      numeric_input_unit[where n = "Finite 1609906400" and opts = "noOptions" and h = utcHost and f = "''ISO''"]
      numeric_input_unit[where n = "Finite 1609906400000" and opts = "?s" and h = utcHost and f = "''ISO''"]
      numeric_input_unit[where n = "Finite 1609906400" and opts = "?m" and h = utcHost and f = "''ISO''"]
    unfolding u using a b c d by simp
qed

section \<open>Results and their fields\<close>



section \<open>\<^verbatim>\<open>convertDate\<close>\<close>

text \<open>
  C6. \<^verbatim>\<open>convertDate(input, outputFormat, options)\<close> is the \<^verbatim>\<open>value\<close> field of
  \<^verbatim>\<open>formatDate(input, outputFormat, options)\<close> when that result is a success, a field that is
  then present, and \<^verbatim>\<open>null\<close> otherwise.
\<close>

theorem convertDate_unwraps:
  "(success (formatDate h input f opts) \<longrightarrow>
      (\<exists>v. value (formatDate h input f opts) = Some v \<and>
           convertDate h input f opts = Rendered v)) \<and>
   (\<not> success (formatDate h input f opts) \<longrightarrow> convertDate h input f opts = Null)"
  using formatDate_shape[of h input f opts] by (auto simp: convertDate_def)

theorem convertDate_unwraps_witness:
  "success (formatDate utcHost (InString ''2023-05-15T14:30:00.000Z'') ''timestamp-seconds'' noOptions) \<and>
   convertDate utcHost (InString ''2023-05-15T14:30:00.000Z'') ''timestamp-seconds'' noOptions =
     Rendered (Num (Finite 1684161000)) \<and>
   \<not> success (formatDate utcHost (InString ''invalid-date'') ''ISO'' noOptions) \<and>
   convertDate utcHost (InString ''invalid-date'') ''ISO'' noOptions = Null"
proof -
  have a: "formatDate utcHost (InString ''2023-05-15T14:30:00.000Z'') ''timestamp-seconds'' noOptions =
      successful (Num (Finite 1684161000)) (Date (Some 1684161000000))"
    by code_simp
  have b: "formatDate utcHost (InString ''invalid-date'') ''ISO'' noOptions = failure ''Invalid date.''"
    by code_simp
  show ?thesis
    using convertDate_unwraps[of utcHost "InString ''2023-05-15T14:30:00.000Z''"
        "''timestamp-seconds''" noOptions]
      convertDate_unwraps[of utcHost "InString ''invalid-date''" "''ISO''" noOptions]
    unfolding a b by auto
qed

section \<open>\<^verbatim>\<open>getSmartDate\<close> returns a string or null\<close>

lemma smart_formats_render_strings:
  assumes "f = ''relative'' \<or> f = ''MMM D, HH:mm'' \<or> f = ''MMM D YYYY, HH:mm''"
  shows "(\<exists>m. formatDate h (InDate d) f opts = failure m) \<or>
         (\<exists>s. formatDate h (InDate d) f opts = successful (Str s) d)"
proof -
  have "formatDate_try h (InDate d) f opts = Inr r \<Longrightarrow>
        (\<exists>m. r = failure m) \<or> (\<exists>s. r = successful (Str s) d)" for r
    using assms
    unfolding formatDate_try_def formatDate_parse_InDate Let_def
    by (auto split: if_splits dest: assignString_shape)
  then show ?thesis
    by (cases "formatDate_try h (InDate d) f opts") (auto simp: formatDate_def)
qed

text \<open>
  C10. For every input and options \<^verbatim>\<open>getSmartDate\<close> returns a string or \<^verbatim>\<open>null\<close>, never a
  number (nor \<^verbatim>\<open>undefined\<close>): each of the three formats it can choose renders a string.
\<close>

theorem getSmartDate_string_or_null:
  "getSmartDate h input opts = Null \<or> (\<exists>s. getSmartDate h input opts = Rendered (Str s))"
proof (cases "getSmartDate_parse h input (unitOf opts)")
  case None
  then show ?thesis by (simp add: getSmartDate_def)
next
  case (Some d)
  show ?thesis
  proof (cases "isValid d")
    case False
    then show ?thesis using Some by (simp add: getSmartDate_def)
  next
    case True
    define tf where "tf =
      (if atMost (hoursBetween (newDate_now h) d) 24 then ''relative''
       else if strictEquals (getFullYear h (newDate_now h)) (getFullYear h d) then ''MMM D, HH:mm''
       else ''MMM D YYYY, HH:mm'')"
    have g: "getSmartDate h input opts = convertDate (afterReading h) (InDate d) tf opts"
      using Some True by (simp add: getSmartDate_def tf_def Let_def)
    have "tf = ''relative'' \<or> tf = ''MMM D, HH:mm'' \<or> tf = ''MMM D YYYY, HH:mm''"
      by (simp add: tf_def)
    from smart_formats_render_strings[OF this, of "afterReading h" d opts]
    show ?thesis unfolding g by (auto simp: convertDate_def)
  qed
qed

theorem getSmartDate_string_or_null_witness:
  "getSmartDate utcHost (InNumber (Finite 1609906400)) noOptions =
     Rendered (Str ''Jan 6, 2021, 04:13'') \<and>
   getSmartDate utcHost (InNumber (Finite 1699996400)) noOptions =
     Rendered (Str ''about 1 hour ago'') \<and>
   getSmartDate utcHost (InString ''invalid-date'') noOptions = Null"
proof -
  have a: "getSmartDate utcHost (InNumber (Finite 1609906400)) noOptions =
      Rendered (Str ''Jan 6, 2021, 04:13'')"
    and b: "getSmartDate utcHost (InNumber (Finite 1699996400)) noOptions =
      Rendered (Str ''about 1 hour ago'')"
    and c: "getSmartDate utcHost (InString ''invalid-date'') noOptions = Null"
    by code_simp+
  show ?thesis
    using getSmartDate_string_or_null[of utcHost "InNumber (Finite 1609906400)" noOptions] a b c
    by simp
qed

section \<open>Errors are values\<close>

text \<open>The switch of \<^verbatim>\<open>formatDate\<close> on a valid \<^verbatim>\<open>Date\<close>, with the cases that call \<^verbatim>\<open>format\<close>
  on a fixed pattern collected.\<close>

lemma formatDate_InDate_valid:
  assumes "isValid d"
  shows "formatDate_try h (InDate d) f opts =
    (if f = ''ISO'' then assignString (toISOString d) d
     else case fixedPattern f of
       Some p \<Rightarrow> assignString (format h d p None) d
     | None \<Rightarrow>
        if f = ''timestamp-seconds'' then Inr (successful (Num (floorDiv (getTime d) 1000)) d)
        else if f = ''timestamp-ms'' then Inr (successful (Num (getTime d)) d)
        else if f = ''relative'' then assignString (formatDistance h d (newDate_now h) True) d
        else if f = ''custom'' then
           (case customFormat opts of
              None \<Rightarrow> Inr (failure ''Custom format requires 'customFormat' option to be provided'')
            | Some cf \<Rightarrow>
                if cf = [] then
                  Inr (failure ''Custom format requires 'customFormat' option to be provided'')
                else
                  (case format h d cf (locale opts) of
                     Inl e \<Rightarrow> Inr (failure (''Invalid custom format: '' @ cf))
                   | Inr v \<Rightarrow> Inr (successful (Str v) d)))
        else Inr (failure (''Unsupported output format: '' @ f)))"
  using assms
  unfolding formatDate_try_def formatDate_parse_InDate Let_def fixedPattern_def
  by simp

lemma formatDate_valid:
  assumes "formatDate_parse h input (unitOf opts) = Some d" and "isValid d"
  shows "formatDate h input f opts =
    (case (if f = ''ISO'' then assignString (toISOString d) d
     else case fixedPattern f of
       Some p \<Rightarrow> assignString (format h d p None) d
     | None \<Rightarrow>
        if f = ''timestamp-seconds'' then Inr (successful (Num (floorDiv (getTime d) 1000)) d)
        else if f = ''timestamp-ms'' then Inr (successful (Num (getTime d)) d)
        else if f = ''relative'' then assignString (formatDistance h d (newDate_now h) True) d
        else if f = ''custom'' then
           (case customFormat opts of
              None \<Rightarrow> Inr (failure ''Custom format requires 'customFormat' option to be provided'')
            | Some cf \<Rightarrow>
                if cf = [] then
                  Inr (failure ''Custom format requires 'customFormat' option to be provided'')
                else
                  (case format h d cf (locale opts) of
                     Inl e \<Rightarrow> Inr (failure (''Invalid custom format: '' @ cf))
                   | Inr v \<Rightarrow> Inr (successful (Str v) d)))
        else Inr (failure (''Unsupported output format: '' @ f))) of
      Inl e \<Rightarrow> failure (''Date parsing error: '' @ thrownText e)
    | Inr result \<Rightarrow> result)"
proof -
  have "formatDate h input f opts = formatDate h (InDate d) f opts"
    by (rule formatDate_via_parse[OF assms(1)])
  also have "\<dots> = (case formatDate_try h (InDate d) f opts of
      Inl e \<Rightarrow> failure (''Date parsing error: '' @ thrownText e) | Inr result \<Rightarrow> result)"
    by (simp add: formatDate_def)
  finally show ?thesis by (simp only: formatDate_InDate_valid[OF assms(2)])
qed


text \<open>
  C5. For every instant rendered with the format \<^verbatim>\<open>custom\<close>: when the option \<^verbatim>\<open>customFormat\<close>
  is absent (or the empty string, which the test \<^verbatim>\<open>!customFormat\<close> treats alike) the call
  fails with the message \<^verbatim>\<open>Custom format requires 'customFormat' option to be provided\<close>, and
  when the formatter throws on the pattern the call fails with the message
  \<^verbatim>\<open>Invalid custom format: \<close> followed by the pattern.
\<close>

theorem custom_format_errors:
  assumes "formatDate_parse h input (unitOf opts) = Some d" and "isValid d"
  shows
   "(customFormat opts = None \<or> customFormat opts = Some [] \<longrightarrow>
       formatDate h input ''custom'' opts =
         failure ''Custom format requires 'customFormat' option to be provided'') \<and>
    (\<forall>p e. customFormat opts = Some p \<and> p \<noteq> [] \<and> format h d p (locale opts) = Inl e \<longrightarrow>
       formatDate h input ''custom'' opts = failure (''Invalid custom format: '' @ p))"
  unfolding formatDate_valid[OF assms]
  by (auto simp: fixedPattern_def)


text \<open>No \<^verbatim>\<open>customFormat\<close>; and the pattern \<^verbatim>\<open>n\<close>, a letter date-fns has no formatter for.\<close>

theorem custom_format_errors_witness:
  "formatDate_parse utcHost (InString ''2023-05-15'') (unitOf noOptions) =
     Some (Date (Some 1684108800000)) \<and>
   isValid (Date (Some 1684108800000)) \<and>
   customFormat noOptions = None \<and>
   formatDate utcHost (InString ''2023-05-15'') ''custom'' noOptions =
     failure ''Custom format requires 'customFormat' option to be provided'' \<and>
   format utcHost (Date (Some 1684108800000)) ''n'' None =
     Inl (ErrorInstance ''Format string contains an unescaped latin alphabet character `n`'') \<and>
   formatDate utcHost (InString ''2023-05-15'') ''custom'' (noOptions\<lparr>customFormat := Some ''n''\<rparr>) =
     failure ''Invalid custom format: n''"
proof -
  have p: "formatDate_parse utcHost (InString ''2023-05-15'') (unitOf noOptions) =
      Some (Date (Some 1684108800000))"
    by code_simp
  have q: "formatDate_parse utcHost (InString ''2023-05-15'')
      (unitOf (noOptions\<lparr>customFormat := Some ''n''\<rparr>)) = Some (Date (Some 1684108800000))"
    by code_simp
  have v: "isValid (Date (Some 1684108800000))"
    by code_simp
  have t: "format utcHost (Date (Some 1684108800000)) ''n'' None =
      Inl (ErrorInstance ''Format string contains an unescaped latin alphabet character `n`'')"
    by code_simp
  show ?thesis
    using custom_format_errors[OF p v] custom_format_errors[OF q v] p v t
    by (simp add: noOptions_def)
qed


text \<open>
  C4, as the code has it. \<^verbatim>\<open>formatDate\<close> never throws: every failure is a result with
  \<^verbatim>\<open>success\<close> false and a defined \<^verbatim>\<open>error\<close>, and an exception that leaves the \<^verbatim>\<open>try\<close> block
  is reported as \<^verbatim>\<open>Date parsing error: \<close> followed by the text of the exception. That is what
  happens to an exception of \<^verbatim>\<open>format\<close> on the pattern of a named format and of
  \<^verbatim>\<open>formatDistance\<close>. An exception of \<^verbatim>\<open>format\<close> on a custom pattern does not leave the
  \<^verbatim>\<open>try\<close> block: the inner catch clause reports it as \<^verbatim>\<open>Invalid custom format: \<close> followed
  by the pattern, and the text of the exception is dropped.
\<close>

theorem formatDate_total:
  "(\<not> success (formatDate h input f opts) \<longrightarrow> (\<exists>m. error (formatDate h input f opts) = Some m)) \<and>
   (\<forall>e. formatDate_try h input f opts = Inl e \<longrightarrow>
      formatDate h input f opts = failure (''Date parsing error: '' @ thrownText e)) \<and>
   (\<forall>d p e. formatDate_parse h input (unitOf opts) = Some d \<and> isValid d \<and>
      fixedPattern f = Some p \<and> format h d p None = Inl e \<longrightarrow>
      formatDate h input f opts = failure (''Date parsing error: '' @ thrownText e)) \<and>
   (\<forall>d e. formatDate_parse h input (unitOf opts) = Some d \<and> isValid d \<and>
      f = ''relative'' \<and> formatDistance h d (newDate_now h) True = Inl e \<longrightarrow>
      formatDate h input f opts = failure (''Date parsing error: '' @ thrownText e)) \<and>
   (\<forall>d p e. formatDate_parse h input (unitOf opts) = Some d \<and> isValid d \<and>
      f = ''custom'' \<and> customFormat opts = Some p \<and> p \<noteq> [] \<and>
      format h d p (locale opts) = Inl e \<longrightarrow>
      formatDate h input f opts = failure (''Invalid custom format: '' @ p))"
proof (intro conjI allI impI)
  show "\<exists>m. error (formatDate h input f opts) = Some m" if "\<not> success (formatDate h input f opts)"
    using that formatDate_shape[of h input f opts] by auto
  show "formatDate h input f opts = failure (''Date parsing error: '' @ thrownText e)"
    if "formatDate_try h input f opts = Inl e" for e
    using that by (simp add: formatDate_def)
  show "formatDate h input f opts = failure (''Date parsing error: '' @ thrownText e)"
    if a: "formatDate_parse h input (unitOf opts) = Some d \<and> isValid d \<and>
      fixedPattern f = Some p \<and> format h d p None = Inl e" for d p e
  proof -
    have "f \<noteq> ''ISO''" using a by (auto simp: fixedPattern_def)
    then show ?thesis
      using a by (simp add: formatDate_valid[of h input opts d] assignString_def)
  qed
  show "formatDate h input f opts = failure (''Date parsing error: '' @ thrownText e)"
    if a: "formatDate_parse h input (unitOf opts) = Some d \<and> isValid d \<and>
      f = ''relative'' \<and> formatDistance h d (newDate_now h) True = Inl e" for d e
    using a by (simp add: formatDate_valid[of h input opts d] assignString_def fixedPattern_def)
  show "formatDate h input f opts = failure (''Invalid custom format: '' @ p)"
    if a: "formatDate_parse h input (unitOf opts) = Some d \<and> isValid d \<and>
      f = ''custom'' \<and> customFormat opts = Some p \<and> p \<noteq> [] \<and>
      format h d p (locale opts) = Inl e" for d p e
    using a by (simp add: formatDate_valid[of h input opts d] fixedPattern_def)
qed

text \<open>Collaborators that throw an \<^verbatim>\<open>Error\<close> with the message \<^verbatim>\<open>boom\<close>, or the value 42; and
  an input that is neither a \<^verbatim>\<open>Date\<close>, a number nor a string.\<close>

theorem formatDate_total_witness:
  "formatDate_parse (throwingHost (ErrorInstance ''boom'')) (InString ''2023-05-15'')
     (unitOf noOptions) = Some (Date (Some 1684108800000)) \<and>
   isValid (Date (Some 1684108800000)) \<and>
   fixedPattern ''YYYY-MM-DD'' = Some ''yyyy-MM-dd'' \<and>
   format (throwingHost (ErrorInstance ''boom'')) (Date (Some 1684108800000)) ''yyyy-MM-dd'' None =
     Inl (ErrorInstance ''boom'') \<and>
   formatDate_try (throwingHost (ErrorInstance ''boom'')) (InString ''2023-05-15'') ''YYYY-MM-DD''
     noOptions = Inl (ErrorInstance ''boom'') \<and>
   formatDate (throwingHost (ErrorInstance ''boom'')) (InString ''2023-05-15'') ''YYYY-MM-DD'' noOptions =
     failure ''Date parsing error: boom'' \<and>
   formatDate (throwingHost (NonError ''42'')) (InString ''2023-05-15'') ''relative'' noOptions =
     failure ''Date parsing error: 42'' \<and>
   formatDate (throwingHost (ErrorInstance ''boom'')) (InString ''2023-05-15'') ''custom''
     (noOptions\<lparr>customFormat := Some ''n''\<rparr>) = failure ''Invalid custom format: n'' \<and>
   \<not> success (formatDate utcHost InOther ''ISO'' noOptions) \<and>
   error (formatDate utcHost InOther ''ISO'' noOptions) = Some ''Unsupported input format.''"
proof -
  let ?d = "Date (Some 1684108800000)"
  have p: "formatDate_parse (throwingHost e) (InString ''2023-05-15'') (unitOf noOptions) = Some ?d"
    for e by code_simp
  have q: "formatDate_parse (throwingHost e) (InString ''2023-05-15'')
      (unitOf (noOptions\<lparr>customFormat := Some ''n''\<rparr>)) = Some ?d" for e
    by code_simp
  have v: "isValid ?d" by code_simp
  have fp: "fixedPattern ''YYYY-MM-DD'' = Some ''yyyy-MM-dd''" by code_simp
  have t: "format (throwingHost e) d p l = Inl e"
    "formatDistance (throwingHost e) d b s = Inl e" for e d p l b s
    by (simp_all add: throwingHost_def)
  have u: "formatDate utcHost InOther ''ISO'' noOptions = failure ''Unsupported input format.''"
    by code_simp
  have w: "formatDate_try (throwingHost (ErrorInstance ''boom'')) (InString ''2023-05-15'')
      ''YYYY-MM-DD'' noOptions = Inl (ErrorInstance ''boom'')"
    by code_simp
  show ?thesis
    using formatDate_total[of "throwingHost (ErrorInstance ''boom'')" "InString ''2023-05-15''"
        "''YYYY-MM-DD''" noOptions]
      formatDate_total[of "throwingHost (NonError ''42'')" "InString ''2023-05-15''"
        "''relative''" noOptions]
      formatDate_total[of "throwingHost (ErrorInstance ''boom'')" "InString ''2023-05-15''"
        "''custom''" "noOptions\<lparr>customFormat := Some ''n''\<rparr>"]
      formatDate_total[of utcHost InOther "''ISO''" noOptions]
      p q v fp t u w
    by (simp add: noOptions_def)
qed

text \<open>
  C4 as stated says that any exception raised while formatting is reported as a parsing error
  that carries the text of the exception. On the custom pattern \<^verbatim>\<open>n\<close> the formatter throws,
  and the result is \<^verbatim>\<open>Invalid custom format: n\<close>, which is not that report.
\<close>

theorem parsing_error_counterexample:
  "format utcHost (Date (Some 1684108800000)) ''n'' None =
     Inl (ErrorInstance ''Format string contains an unescaped latin alphabet character `n`'') \<and>
   formatDate utcHost (InDate (Date (Some 1684108800000))) ''custom''
       (noOptions\<lparr>customFormat := Some ''n''\<rparr>) = failure ''Invalid custom format: n'' \<and>
   failure ''Invalid custom format: n'' \<noteq>
     failure (''Date parsing error: '' @
       thrownText (ErrorInstance ''Format string contains an unescaped latin alphabet character `n`''))"
proof (intro conjI)
  show "format utcHost (Date (Some 1684108800000)) ''n'' None =
     Inl (ErrorInstance ''Format string contains an unescaped latin alphabet character `n`'')"
    by code_simp
  show "formatDate utcHost (InDate (Date (Some 1684108800000))) ''custom''
       (noOptions\<lparr>customFormat := Some ''n''\<rparr>) = failure ''Invalid custom format: n''"
    by code_simp
  show "failure ''Invalid custom format: n'' \<noteq>
     failure (''Date parsing error: '' @
       thrownText (ErrorInstance ''Format string contains an unescaped latin alphabet character `n`''))"
    by (simp add: failure_def)
qed

section \<open>String input\<close>















section \<open>\<^verbatim>\<open>getSmartDate\<close>: selection of the format, and the missing fallback\<close>

text \<open>The test \<^verbatim>\<open>diffInHours <= 24\<close> in whole milliseconds.\<close>

lemma hours_at_most_24:
  "atMost (hoursBetween (Date (Some n)) (Date (Some t))) 24 \<longleftrightarrow> n - t \<le> 86400000"
proof -
  have "(of_int (n - t) / of_int (1000 * 60 * 60) \<le> (24::rat)) \<longleftrightarrow>
        (of_int (n - t) \<le> (24::rat) * of_int (1000 * 60 * 60))"
    by (subst pos_divide_le_eq) simp_all
  also have "\<dots> \<longleftrightarrow> (of_int (n - t) \<le> (of_int 86400000 :: rat))" by simp
  also have "\<dots> \<longleftrightarrow> n - t \<le> 86400000" by (simp only: of_int_le_iff)
  finally show ?thesis by (simp add: atMost_def hoursBetween_def)
qed

lemma getSmartDate_selection:
  assumes "getSmartDate_parse h input (unitOf opts) = Some (Date (Some t))"
  shows "getSmartDate h input opts =
    convertDate (afterReading h) (InDate (Date (Some t)))
      (if clock h 0 - t \<le> 86400000 then ''relative''
       else if YearFromTime (LocalTime h (clock h 0)) = YearFromTime (LocalTime h t)
         then ''MMM D, HH:mm''
       else ''MMM D YYYY, HH:mm'') opts"
  using assms
  by (simp add: getSmartDate_def Let_def isValid_def newDate_now_def hours_at_most_24
      getFullYear_def strictEquals_def)

text \<open>
  C1. \<^verbatim>\<open>getSmartDate\<close> is claimed to turn its input into a \<^verbatim>\<open>Date\<close> as \<^verbatim>\<open>formatDate\<close> does,
  including the fallback for strings of the form year-month-day, so that every input
  \<^verbatim>\<open>formatDate\<close> accepts is accepted by \<^verbatim>\<open>getSmartDate\<close> too. Its own copy of the parsing
  code (lines 237 to 248) has no such fallback: on the string \<^verbatim>\<open>2023-13-01\<close>, which
  \<^verbatim>\<open>Date.parse\<close> rejects for its month, \<^verbatim>\<open>formatDate\<close> succeeds with the first of January
  2024 and \<^verbatim>\<open>getSmartDate\<close> returns \<^verbatim>\<open>null\<close>. The selection rule itself, on the inputs
  \<^verbatim>\<open>getSmartDate\<close> does accept, is lemma \<open>getSmartDate_selection\<close> above.
\<close>

theorem getSmartDate_misses_fallback:
  "formatDate utcHost (InString ''2023-13-01'') ''ISO'' noOptions =
     successful (Str ''2024-01-01T00:00:00.000Z'') (Date (Some 1704067200000)) \<and>
   getSmartDate utcHost (InString ''2023-13-01'') noOptions = Null"
  by code_simp


section \<open>The example of the timestamp 1684150200\<close>

lemma day_of_example:
  assumes "- 41400000 \<le> off" "off < 45000000"
  shows "Day (1684150200000 + off) = 19492"
proof -
  have "(1684150200000 + off) div 86400000 = 19492"
    using assms by linarith
  then show ?thesis by (simp add: Day_def msPerDay_def)
qed

lemma fields_of_example:
  assumes "Day lt = 19492"
  shows "YearFromTime lt = 2023" "MonthFromTime lt = 4" "DateFromTime lt = 15"
proof -
  have yd: "YearFromDay 19492 = 2023" by code_simp
  show y: "YearFromTime lt = 2023" by (simp add: YearFromTime_def assms yd)
  have dfy: "DayFromYear 2023 = 19358" by code_simp
  have diy: "DaysInYear 2023 = 365" by code_simp
  have dwy: "DayWithinYear lt = 134" by (simp add: DayWithinYear_def y assms dfy)
  have leap: "InLeapYear lt = 0" by (simp add: InLeapYear_def y diy)
  show m: "MonthFromTime lt = 4" by (simp add: MonthFromTime_def dwy leap)
  show "DateFromTime lt = 15" by (simp add: DateFromTime_def dwy leap m)
qed

lemma tokens_ymd: "tokens ''yyyy-MM-dd'' = [''yyyy'', ''-'', ''MM'', ''-'', ''dd'']"
  by code_simp

lemma pads: "padStart 4 2023 = ''2023''" "padStart 2 5 = ''05''" "padStart 2 15 = ''15''"
  by code_simp+

text \<open>
  C8, with the zone it depends on. The instant 1684150200 seconds is 11:30 UTC on 15 May
  2023, and \<^verbatim>\<open>format\<close> renders local time. On a host whose \<^verbatim>\<open>format\<close> is that of date-fns and
  whose local time at that instant is at most 11 h 30 min behind and less than 12 h 30 min
  ahead of UTC, \<^verbatim>\<open>formatDate(1684150200, "YYYY-MM-DD", {timestampUnit: "seconds"})\<close> is the success
  with the value \<^verbatim>\<open>2023-05-15\<close>.
\<close>

theorem timestamp_example:
  assumes "format h = dateFns_format (LocalTZA h) beyond"
    and "- 41400000 \<le> LocalTZA h 1684150200000 True"
    and "LocalTZA h 1684150200000 True < 45000000"
  shows "formatDate h (InNumber (Finite 1684150200)) ''YYYY-MM-DD''
           (opts\<lparr>timestampUnit := Some seconds\<rparr>) =
         successful (Str ''2023-05-15'') (Date (Some 1684150200000))"
proof -
  let ?o = "opts\<lparr>timestampUnit := Some seconds\<rparr>"
  let ?d = "Date (Some 1684150200000)"
  let ?lt = "1684150200000 + LocalTZA h 1684150200000 True"
  have p: "formatDate_parse h (InNumber (Finite 1684150200)) (unitOf ?o) = Some ?d"
    by (simp add: formatDate_parse_def unitOf_def newDate_number_def TimeClip_def)
  have v: "isValid ?d" by (simp add: isValid_def)
  have day: "Day ?lt = 19492" using assms(2,3) by (rule day_of_example)
  note fs = fields_of_example[OF day]
  have tok: "formatToken ?lt ''yyyy'' = Text ''2023''" "formatToken ?lt ''MM'' = Text ''05''"
    "formatToken ?lt ''dd'' = Text ''15''" "formatToken ?lt ''-'' = Text ''-''"
    by (simp_all add: formatToken_def fs pads isLatinLetter_def)
  have "format h ?d ''yyyy-MM-dd'' None = Inr ''2023-05-15''"
    unfolding assms(1) dateFns_format_def
    by (simp add: tokens_ymd tok)
  then show ?thesis
    by (simp add: formatDate_valid[OF p v] fixedPattern_def assignString_def)
qed


theorem timestamp_example_witness:
  "format utcHost = dateFns_format (LocalTZA utcHost) (\<lambda>d p l. Inl beyondModel) \<and>
   - 41400000 \<le> LocalTZA utcHost 1684150200000 True \<and>
   LocalTZA utcHost 1684150200000 True < 45000000 \<and>
   formatDate utcHost (InNumber (Finite 1684150200)) ''YYYY-MM-DD''
     (noOptions\<lparr>timestampUnit := Some seconds\<rparr>) =
     successful (Str ''2023-05-15'') (Date (Some 1684150200000))"
proof -
  have a: "format utcHost = dateFns_format (LocalTZA utcHost) (\<lambda>d p l. Inl beyondModel)"
    by (simp add: utcHost_def fixedOffsetHost_def)
  have b: "- 41400000 \<le> LocalTZA utcHost 1684150200000 True"
    and c: "LocalTZA utcHost 1684150200000 True < 45000000"
    by (simp_all add: utcHost_def fixedOffsetHost_def)
  show ?thesis using timestamp_example[OF a b c, of noOptions] a b c by simp
qed


text \<open>C8 as stated has no condition on the zone. Thirteen hours ahead of UTC the same call
  yields \<^verbatim>\<open>2023-05-16\<close>.\<close>

theorem timestamp_example_counterexample:
  "value (formatDate (fixedOffsetHost 1700000000000 46800000) (InNumber (Finite 1684150200))
     ''YYYY-MM-DD'' (noOptions\<lparr>timestampUnit := Some seconds\<rparr>)) = Some (Str ''2023-05-16'') \<and>
   value (formatDate (fixedOffsetHost 1700000000000 46800000) (InNumber (Finite 1684150200))
     ''YYYY-MM-DD'' (noOptions\<lparr>timestampUnit := Some seconds\<rparr>)) \<noteq> Some (Str ''2023-05-15'')"
  by code_simp

section \<open>The round trip of an ISO string\<close>

lemma time_in_range:
  assumes "0 \<le> y" "y \<le> 9999" "0 \<le> w" "w < 367" "0 \<le> tod" "tod < 86400000"
    and "t = MakeDate (DayFromYear y + w) tod"
  shows "TimeClip t = Some t"
proof -
  define D where "D = DayFromYear y"
  have lo: "- 719529 \<le> D"
    using DayFromYear_lower[of y] assms(1) unfolding D_def by linarith
  have hi: "D \<le> 2932898"
    using DayFromYear_upper[of y] assms(2) unfolding D_def by linarith
  have t: "t = 86400000 * D + 86400000 * w + tod"
    using assms(7) by (simp add: MakeDate_def msPerDay_def D_def algebra_simps)
  have "- 8640000000000000 \<le> t" "t \<le> 8640000000000000"
    using lo hi assms(3-6) unfolding t by linarith+
  then show ?thesis by (simp add: TimeClip_def)
qed

lemma MakeTime_range:
  assumes "0 \<le> hh" "hh \<le> 23" "0 \<le> mi" "mi \<le> 59" "0 \<le> ss" "ss \<le> 59" "0 \<le> ms" "ms < 1000"
  shows "0 \<le> MakeTime hh mi ss ms" "MakeTime hh mi ss ms < 86400000"
  using assms unfolding MakeTime_def by linarith+

lemma iso_fields:
  assumes "isoCanonical s"
  shows "matchesDateTimeUTC s" "\<not> matchesYMD s"
    "1 \<le> field s 5 2" "field s 5 2 \<le> 12"
    "1 \<le> field s 8 2" "field s 8 2 \<le> DaysInMonth (field s 0 4) (field s 5 2)"
    "0 \<le> field s 11 2" "field s 11 2 \<le> 23" "0 \<le> field s 14 2" "field s 14 2 \<le> 59"
    "0 \<le> field s 17 2" "field s 17 2 \<le> 59" "0 \<le> field s 20 3" "field s 20 3 < 1000"
    "0 \<le> field s 0 4" "field s 0 4 \<le> 9999"
proof -
  show m: "matchesDateTimeUTC s" using assms by (simp add: isoCanonical_def)
  show "\<not> matchesYMD s" using m by (simp add: matchesDateTimeUTC_def matchesYMD_def)
  show "1 \<le> field s 5 2" "field s 5 2 \<le> 12" "1 \<le> field s 8 2"
    "field s 8 2 \<le> DaysInMonth (field s 0 4) (field s 5 2)"
    "field s 11 2 \<le> 23" "field s 14 2 \<le> 59" "field s 17 2 \<le> 59"
    using assms by (simp_all add: isoCanonical_def)
  show "0 \<le> field s 11 2" "0 \<le> field s 14 2" "0 \<le> field s 17 2" "0 \<le> field s 20 3"
    "0 \<le> field s 0 4"
    by (simp_all add: field_def)
  note sh = dateTime_shape[OF m]
  show "field s 20 3 < 1000" using field_range(2)[OF sh(8) sh(15)] by simp
  have "field s 0 4 < 10000" using field_range(2)[of 4 0 s] sh(2,9) by simp
  then show "field s 0 4 \<le> 9999" by simp
qed

lemma iso_pads:
  assumes "matchesDateTimeUTC s"
  shows "padStart 4 (nat (field s 0 4)) = take 4 s"
    "padStart 2 (nat (field s 5 2)) = take 2 (drop 5 s)"
    "padStart 2 (nat (field s 8 2)) = take 2 (drop 8 s)"
    "padStart 2 (nat (field s 11 2)) = take 2 (drop 11 s)"
    "padStart 2 (nat (field s 14 2)) = take 2 (drop 14 s)"
    "padStart 2 (nat (field s 17 2)) = take 2 (drop 17 s)"
    "padStart 3 (nat (field s 20 3)) = take 3 (drop 20 s)"
proof -
  note sh = dateTime_shape[OF assms]
  show "padStart 4 (nat (field s 0 4)) = take 4 s"
    using field_range(3)[of 4 0 s] sh(2,9) by simp
  show "padStart 2 (nat (field s 5 2)) = take 2 (drop 5 s)"
    by (rule field_range(3)[OF sh(3) sh(10)]) simp
  show "padStart 2 (nat (field s 8 2)) = take 2 (drop 8 s)"
    by (rule field_range(3)[OF sh(4) sh(11)]) simp
  show "padStart 2 (nat (field s 11 2)) = take 2 (drop 11 s)"
    by (rule field_range(3)[OF sh(5) sh(12)]) simp
  show "padStart 2 (nat (field s 14 2)) = take 2 (drop 14 s)"
    by (rule field_range(3)[OF sh(6) sh(13)]) simp
  show "padStart 2 (nat (field s 17 2)) = take 2 (drop 17 s)"
    by (rule field_range(3)[OF sh(7) sh(14)]) simp
  show "padStart 3 (nat (field s 20 3)) = take 3 (drop 20 s)"
    by (rule field_range(3)[OF sh(8) sh(15)]) simp
qed

lemma iso_parse:
  assumes "isoCanonical s"
  defines "t \<equiv> MakeDate (MakeDay (field s 0 4) (field s 5 2 - 1) (field s 8 2))
                  (MakeTime (field s 11 2) (field s 14 2) (field s 17 2) (field s 20 3))"
  shows "Date_parse h s = Some t" "toISOString (Date (Some t)) = Inr s"
proof -
  note f = iso_fields[OF assms(1)]
  note pads = iso_pads[OF f(1)]
  define w where "w = monthStart (field s 5 2 - 1) (if DaysInYear (field s 0 4) = 366 then 1 else 0) +
      field s 8 2 - 1"
  have md: "MakeDay (field s 0 4) (field s 5 2 - 1) (field s 8 2) = DayFromYear (field s 0 4) + w"
    using MakeDay_in_range[OF f(3,4), of "field s 0 4" "field s 8 2"] by (simp add: w_def)
  have w: "0 \<le> w" "w < 367"
    using day_within_year[OF f(3-6)] DaysInYear_pos(2)[of "field s 0 4"]
    unfolding w_def by linarith+
  note tr = MakeTime_range[OF f(7-14)]
  have t: "t = MakeDate (DayFromYear (field s 0 4) + w)
      (MakeTime (field s 11 2) (field s 14 2) (field s 17 2) (field s 20 3))"
    by (simp add: t_def md)
  have clip: "TimeClip t = Some t"
    by (rule time_in_range[OF f(15,16) w tr t])
  have dim: "field s 8 2 \<le> 31"
    using f(6) by (simp add: DaysInMonth_def split: if_splits)
  have c1: "\<not> (field s 5 2 < 1 \<or> 12 < field s 5 2 \<or> field s 8 2 < 1 \<or> 31 < field s 8 2 \<or>
      24 < field s 11 2 \<or> 59 < field s 14 2 \<or> 59 < field s 17 2 \<or>
      field s 11 2 = 24 \<and> (0 < field s 14 2 \<or> 0 < field s 17 2 \<or> 0 < field s 20 3))"
    using f(3,4,5,8,10,12) dim by linarith
  have "Date_parse h s = TimeClip t"
    unfolding Date_parse_def Let_def t_def
    by (simp only: f(1,2) c1 f(6) if_True if_False)
  then show "Date_parse h s = Some t" using clip by simp
  note ft = fields_of_time[OF f(7-14) t_def[THEN meta_eq_to_obj_eq]]
  note fd = fields_of_day[OF f(3-6), of t, OF ft(1)]
  have iy: "isoYear (YearFromTime t) = take 4 s"
    using f(15,16) by (simp add: isoYear_def fd(1) pads(1))
  have mo: "padStart 2 (nat (MonthFromTime t + 1)) = take 2 (drop 5 s)"
    by (simp add: fd(2) pads(2))
  have "toISOString (Date (Some t)) =
      Inr (take 4 s @ ''-'' @ take 2 (drop 5 s) @ ''-'' @ take 2 (drop 8 s) @ ''T'' @
             take 2 (drop 11 s) @ '':'' @ take 2 (drop 14 s) @ '':'' @ take 2 (drop 17 s) @ ''.'' @
             take 3 (drop 20 s) @ ''Z'')"
    unfolding toISOString_def
    by (simp only: Date.sel option.case iy mo fd(3) ft(2-5) pads)
  then show "toISOString (Date (Some t)) = Inr s"
    using dateTime_shape(1)[OF f(1)] by simp
qed

text \<open>
  C7, for the strings \<^verbatim>\<open>toISOString\<close> writes. For every string \<open>s\<close> of the form
  \<^verbatim>\<open>YYYY-MM-DDTHH:mm:ss.sssZ\<close> with a month from 01 to 12, a day that the month has, an hour
  from 00 to 23 and minutes and seconds from 00 to 59, \<^verbatim>\<open>formatDate(s, "ISO")\<close> succeeds and its
  value is \<open>s\<close> again, on every host and with any options.
\<close>

theorem iso_round_trip:
  assumes "isoCanonical s"
  shows "success (formatDate h (InString s) ''ISO'' opts) \<and>
         value (formatDate h (InString s) ''ISO'' opts) = Some (Str s)"
proof -
  obtain t where p: "Date_parse h s = Some t" and i: "toISOString (Date (Some t)) = Inr s"
    using iso_parse[OF assms] by blast
  have d: "newDate_string h s = Date (Some t)" by (simp add: newDate_string_def p)
  have v: "isValid (Date (Some t))" by (simp add: isValid_def)
  have "formatDate_parse h (InString s) (unitOf opts) = Some (Date (Some t))"
    using formatDate_parse_valid_string[of h s] d v by simp
  from formatDate_valid[OF this v, of "''ISO''"]
  have "formatDate h (InString s) ''ISO'' opts = successful (Str s) (Date (Some t))"
    by (simp add: i assignString_def)
  then show ?thesis by simp
qed

theorem iso_round_trip_witness:
  "isoCanonical ''2023-05-15T14:30:00.000Z'' \<and>
   success (formatDate utcHost (InString ''2023-05-15T14:30:00.000Z'') ''ISO'' noOptions) \<and>
   value (formatDate utcHost (InString ''2023-05-15T14:30:00.000Z'') ''ISO'' noOptions) =
     Some (Str ''2023-05-15T14:30:00.000Z'')"
proof -
  have c: "isoCanonical ''2023-05-15T14:30:00.000Z''" by code_simp
  show ?thesis using iso_round_trip[OF c, of utcHost noOptions] c by simp
qed

text \<open>C7 as stated is about every valid ISO string with milliseconds and \<^verbatim>\<open>Z\<close>. The hour 24
  is valid at the end of a day, and \<^verbatim>\<open>Date.parse\<close> accepts it; the value that comes back
  names the next day.\<close>

theorem iso_round_trip_counterexample:
  "matchesDateTimeUTC ''2023-05-15T24:00:00.000Z'' \<and>
   value (formatDate utcHost (InString ''2023-05-15T24:00:00.000Z'') ''ISO'' noOptions) =
     Some (Str ''2023-05-16T00:00:00.000Z'') \<and>
   value (formatDate utcHost (InString ''2023-05-15T24:00:00.000Z'') ''ISO'' noOptions) \<noteq>
     Some (Str ''2023-05-15T24:00:00.000Z'')"
  by code_simp


end
